theory Spec2Isabelle
  imports Main
begin

section \<open>Shared conventions\<close>

text \<open>
  Python values are modelled as follows. A \<open>date\<close> is its proleptic Gregorian ordinal
  (\<open>date.toordinal()\<close>), so that comparing dates is comparing integers and \<open>date.max\<close>
  (9999-12-31) is 3652059. A \<open>datetime\<close> is a count of microseconds since midnight of
  ordinal day 0, a \<open>timedelta\<close> a count of microseconds. Every \<open>datetime.now()\<close> of one
  service call is the parameter \<open>now\<close> of the modelled operation. Every \<open>raise\<close> is a
  value \<open>Inl e\<close>; a service operation returns its result together with the repository
  state it leaves behind, because every repository call commits on its own and an
  exception raised later does not undo it. Fields keep their names, with the name of the
  entity in front where a name alone clashes (\<open>id\<close>, \<open>notes\<close>, \<open>created_at\<close>).
\<close>

type_synonym date = int
type_synonym datetime = int

definition date_max :: date where
  "date_max = 3652059"

datatype error =
    ValueError string
  | Insufficient_stock int int
  | Insufficient_stock_to_reserve int int
  | TypeError string
  | AttributeError string
  | OverflowError string
  | StatementError string

text \<open>
  \<open>Insufficient_stock a q\<close> is \<open>ValueError(f"Insufficient stock. Available: {a}, Requested: {q}")\<close>
  and \<open>Insufficient_stock_to_reserve a q\<close> is
  \<open>ValueError(f"Insufficient stock to reserve. Available: {a}, Requested: {q}")\<close>.
\<close>

text \<open>
  A keyword argument of a call or a key of a dictionary: left out, or given with a value.
\<close>

datatype 'a arg = Omitted | Given 'a

section \<open>Inventory entities (domain/entities/stock.py)\<close>

datatype StockMovementType = PURCHASE | SALE | ADJUSTMENT | RETURN | EXPIRED | DAMAGED

record StockMovement =
  movement_id :: "int option"
  movement_product_id :: int
  movement_type :: StockMovementType
  quantity :: int
  reference_id :: "int option"
  reference_type :: "string option"
  movement_notes :: "string option"
  created_at :: "datetime option"
  created_by :: "int option"

definition StockMovement_post_init :: "StockMovement \<Rightarrow> error + StockMovement" where
  "StockMovement_post_init m =
     (if movement_product_id m \<le> 0 then Inl (ValueError ''Product ID must be a positive integer'')
      else if quantity m = 0 then Inl (ValueError ''Quantity cannot be zero'')
      else if movement_type m \<in> set [SALE, EXPIRED, DAMAGED] \<and> quantity m > 0
        then Inr (m\<lparr>quantity := - \<bar>quantity m\<bar>\<rparr>)
      else if movement_type m \<in> set [PURCHASE, RETURN] \<and> quantity m < 0
        then Inr (m\<lparr>quantity := \<bar>quantity m\<bar>\<rparr>)
      else Inr m)"

text \<open>
  The dataclass constructor. \<open>reference_id\<close> and \<open>reference_type\<close> are fields without
  a default: a call that leaves one out raises TypeError before \<open>__post_init__\<close> runs.
\<close>

definition new_StockMovement ::
  "int option \<Rightarrow> int \<Rightarrow> StockMovementType \<Rightarrow> int \<Rightarrow> int option arg \<Rightarrow> string option arg \<Rightarrow>
   string option \<Rightarrow> datetime option \<Rightarrow> int option \<Rightarrow> error + StockMovement" where
  "new_StockMovement i pid ty q rid rty n cat cby =
     (case rid of
        Omitted \<Rightarrow> Inl (TypeError ''missing required argument reference_id'')
      | Given r \<Rightarrow>
          (case rty of
             Omitted \<Rightarrow> Inl (TypeError ''missing required argument reference_type'')
           | Given t \<Rightarrow>
               StockMovement_post_init
                 \<lparr>movement_id = i, movement_product_id = pid, movement_type = ty, quantity = q,
                  reference_id = r, reference_type = t, movement_notes = n, created_at = cat,
                  created_by = cby\<rparr>))"

record Stock =
  stock_id :: "int option"
  product_id :: int
  current_quantity :: int
  reserved_quantity :: int
  expiration_date :: "date option"
  batch_number :: "string option"
  location :: "string option"
  last_updated :: "datetime option"

definition Stock_post_init :: "Stock \<Rightarrow> error + Stock" where
  "Stock_post_init s =
     (if product_id s \<le> 0 then Inl (ValueError ''Product ID must be a positive integer'')
      else if current_quantity s < 0 then Inl (ValueError ''Current quantity cannot be negative'')
      else if reserved_quantity s < 0 then Inl (ValueError ''Reserved quantity cannot be negative'')
      else if reserved_quantity s > current_quantity s
        then Inl (ValueError ''Reserved quantity cannot exceed current quantity'')
      else Inr s)"

definition available_quantity :: "Stock \<Rightarrow> int" where
  "available_quantity s = current_quantity s - reserved_quantity s"

definition Stock_add_stock :: "datetime \<Rightarrow> Stock \<Rightarrow> int \<Rightarrow> error + Stock" where
  "Stock_add_stock now s q =
     (if q \<le> 0 then Inl (ValueError ''Quantity to add must be positive'')
      else Inr (s\<lparr>current_quantity := current_quantity s + q, last_updated := Some now\<rparr>))"

definition Stock_remove_stock :: "datetime \<Rightarrow> Stock \<Rightarrow> int \<Rightarrow> error + Stock" where
  "Stock_remove_stock now s q =
     (if q \<le> 0 then Inl (ValueError ''Quantity to remove must be positive'')
      else if q > available_quantity s then Inl (ValueError ''Cannot remove more stock than available'')
      else Inr (s\<lparr>current_quantity := current_quantity s - q, last_updated := Some now\<rparr>))"

definition Stock_reserve_stock :: "Stock \<Rightarrow> int \<Rightarrow> error + Stock" where
  "Stock_reserve_stock s q =
     (if q \<le> 0 then Inl (ValueError ''Quantity to reserve must be positive'')
      else if q > available_quantity s then Inl (ValueError ''Cannot reserve more stock than available'')
      else Inr (s\<lparr>reserved_quantity := reserved_quantity s + q\<rparr>))"

definition Stock_release_reservation :: "Stock \<Rightarrow> int \<Rightarrow> error + Stock" where
  "Stock_release_reservation s q =
     (if q \<le> 0 then Inl (ValueError ''Quantity to release must be positive'')
      else if q > reserved_quantity s then Inl (ValueError ''Cannot release more than reserved quantity'')
      else Inr (s\<lparr>reserved_quantity := reserved_quantity s - q\<rparr>))"

section \<open>Inventory repositories (interfaces/repositories, infra/database/repositories)\<close>

text \<open>
  The product repository is used through \<open>find_by_id\<close> only, and of a product only
  \<open>is_active\<close> (\<open>status == ProductStatus.ACTIVE\<close>) is read. Two enumerations carry
  a status: \<open>ProductStatus\<close> of the domain and \<open>ProductStatusEnum\<close> of
  \<open>models.py\<close>, with the same three members; a member of one is never equal to a
  member of the other. The status of a product is therefore a member together with the
  enumeration it belongs to. Column \<open>status\<close> of table \<open>products\<close> holds a member of
  \<open>ProductStatusEnum\<close>, and \<open>_model_to_domain\<close> hands it to the entity as it is
  (\<open>status=model.status\<close>). The other columns of a product are taken to hold what
  the constructor of \<open>Product\<close> accepts.
\<close>

datatype ProductStatus = ACTIVE | INACTIVE | DISCONTINUED

datatype status_member = Of_ProductStatus ProductStatus | Of_ProductStatusEnum ProductStatus

record Product =
  product_status :: status_member

definition is_active :: "Product \<Rightarrow> bool" where
  "is_active p = (product_status p = Of_ProductStatus ACTIVE)"

record ProductModel =
  model_status :: ProductStatus

definition product_model_to_domain :: "ProductModel \<Rightarrow> Product" where
  "product_model_to_domain model = \<lparr>product_status = Of_ProductStatusEnum (model_status model)\<rparr>"

text \<open>
  The stock repository holds the rows of the tables \<open>stock\<close> and \<open>stock_movements\<close>, in the
  order the queries return them. A row of \<open>stock\<close> is written as the entity whose fields
  are its columns; reading it back (\<open>_stock_model_to_domain\<close>) runs the constructor of
  \<open>Stock\<close>, validation included. What the database adds on its own (the defaults of
  the timestamp columns) is not part of the model. The integer columns hold 64 bits; the
  service stores no quantity that is not between 0 and a quantity already stored, so the
  model leaves their range out.
\<close>

record inventory =
  products :: "int \<rightharpoonup> ProductModel"
  stock_rows :: "Stock list"
  movement_rows :: "StockMovement list"

definition product_find_by_id :: "inventory \<Rightarrow> int \<Rightarrow> Product option" where
  "product_find_by_id db pid = map_option product_model_to_domain (products db pid)"

fun stock_models_to_domain :: "Stock list \<Rightarrow> error + Stock list" where
  "stock_models_to_domain [] = Inr []"
| "stock_models_to_domain (r # rs) =
     (case Stock_post_init r of
        Inl e \<Rightarrow> Inl e
      | Inr s \<Rightarrow>
          (case stock_models_to_domain rs of
             Inl e \<Rightarrow> Inl e
           | Inr ss \<Rightarrow> Inr (s # ss)))"

definition find_stock_by_product_id :: "inventory \<Rightarrow> int \<Rightarrow> error + Stock list" where
  "find_stock_by_product_id db pid =
     stock_models_to_domain (filter (\<lambda>r. product_id r = pid) (stock_rows db))"

definition get_total_stock_by_product :: "inventory \<Rightarrow> int \<Rightarrow> int" where
  "get_total_stock_by_product db pid =
     sum_list (map current_quantity (filter (\<lambda>r. product_id r = pid) (stock_rows db)))"

definition get_available_stock_by_product :: "inventory \<Rightarrow> int \<Rightarrow> int" where
  "get_available_stock_by_product db pid =
     sum_list (map (\<lambda>r. current_quantity r - reserved_quantity r)
       (filter (\<lambda>r. product_id r = pid) (stock_rows db)))"

text \<open>The key an autoincrement column gives the next row.\<close>

definition next_id :: "int option list \<Rightarrow> int" where
  "next_id ids = foldr (\<lambda>i m. case i of None \<Rightarrow> m | Some k \<Rightarrow> max k m) ids 0 + 1"

text \<open>\<open>filter_by(id=...).first()\<close> followed by the update of that row.\<close>

fun update_first :: "int \<Rightarrow> Stock \<Rightarrow> Stock list \<Rightarrow> Stock list option" where
  "update_first i s [] = None"
| "update_first i s (r # rs) =
     (if stock_id r = Some i then Some (s # rs)
      else (case update_first i s rs of None \<Rightarrow> None | Some rs' \<Rightarrow> Some (r # rs')))"

definition save_stock :: "inventory \<Rightarrow> Stock \<Rightarrow> (error + Stock) \<times> inventory" where
  "save_stock db stock =
     (case stock_id stock of
        None \<Rightarrow>
          (let stock' = stock\<lparr>stock_id := Some (next_id (map stock_id (stock_rows db)))\<rparr>
           in (Inr stock', db\<lparr>stock_rows := stock_rows db @ [stock']\<rparr>))
      | Some i \<Rightarrow>
          (case update_first i stock (stock_rows db) of
             None \<Rightarrow> (Inl (ValueError ''Stock not found''), db)
           | Some rows' \<Rightarrow> (Inr stock, db\<lparr>stock_rows := rows'\<rparr>)))"

definition update_stock :: "inventory \<Rightarrow> Stock \<Rightarrow> (error + Stock) \<times> inventory" where
  "update_stock db stock = save_stock db stock"

text \<open>
  \<open>save_movement\<close>. Column \<open>movement_type\<close> of table \<open>stock_movements\<close> has the
  type \<open>Enum(StockMovementTypeEnum)\<close>, which binds a member of
  \<open>StockMovementTypeEnum\<close> or the name of one. \<open>_movement_domain_to_model\<close> hands it
  \<open>movement.movement_type\<close>, a member of the domain's \<open>StockMovementType\<close>, which is
  neither: \<open>session.flush()\<close> raises StatementError (from LookupError) for every
  movement, the session is rolled back and the table is left as it was.
\<close>

definition save_movement ::
  "inventory \<Rightarrow> StockMovement \<Rightarrow> (error + StockMovement) \<times> inventory" where
  "save_movement db movement =
     (Inl (StatementError ''movement_type is not among the defined enum values''), db)"

section \<open>Inventory service (services/inventory_service.py)\<close>

text \<open>The sort key \<open>lambda x: x.expiration_date or date.max\<close>; a date is never falsy.\<close>

definition expiration_key :: "Stock \<Rightarrow> date" where
  "expiration_key x = (case expiration_date x of None \<Rightarrow> date_max | Some d \<Rightarrow> d)"

text \<open>
  \<open>add_stock\<close>, lines 57 to 83: the first lot of the product with the same batch
  number, location and expiration date is increased; without one, a new lot is created.
\<close>

definition add_stock_lot ::
  "datetime \<Rightarrow> inventory \<Rightarrow> int \<Rightarrow> int \<Rightarrow> date option \<Rightarrow> string option \<Rightarrow> string option \<Rightarrow>
   Stock list \<Rightarrow> (error + Stock) \<times> inventory" where
  "add_stock_lot now db pid q exp batch loc existing_stocks =
     (case find (\<lambda>stock. batch_number stock = batch \<and> location stock = loc \<and>
                   expiration_date stock = exp) existing_stocks of
        Some matching_stock \<Rightarrow>
          (case Stock_add_stock now matching_stock q of
             Inl e \<Rightarrow> (Inl e, db)
           | Inr matching_stock' \<Rightarrow> update_stock db matching_stock')
      | None \<Rightarrow>
          (case Stock_post_init
                  \<lparr>stock_id = None, product_id = pid, current_quantity = q,
                   reserved_quantity = 0, expiration_date = exp,
                   batch_number = batch, location = loc,
                   last_updated = Some now\<rparr> of
             Inl e \<Rightarrow> (Inl e, db)
           | Inr stock \<Rightarrow> save_stock db stock))"

definition add_stock ::
  "datetime \<Rightarrow> inventory \<Rightarrow> int \<Rightarrow> int \<Rightarrow> date option \<Rightarrow> string option \<Rightarrow> string option \<Rightarrow>
   int option \<Rightarrow> string option \<Rightarrow> string option \<Rightarrow> (error + Stock) \<times> inventory" where
  "add_stock now db pid q exp batch loc rid rty n =
     (case product_find_by_id db pid of
        None \<Rightarrow> (Inl (ValueError ''Product not found''), db)
      | Some product \<Rightarrow>
          if \<not> is_active product
          then (Inl (ValueError ''Cannot add stock to inactive product''), db)
          else
            (case find_stock_by_product_id db pid of
               Inl e \<Rightarrow> (Inl e, db)
             | Inr existing_stocks \<Rightarrow>
                 (case add_stock_lot now db pid q exp batch loc existing_stocks of
                    (Inl e, db') \<Rightarrow> (Inl e, db')
                  | (Inr stock, db') \<Rightarrow>
                      (case new_StockMovement None pid PURCHASE q (Given rid) (Given rty) n
                              (Some now) None of
                         Inl e \<Rightarrow> (Inl e, db')
                       | Inr movement \<Rightarrow>
                           (case save_movement db' movement of
                              (Inl e, db'') \<Rightarrow> (Inl e, db'')
                            | (Inr _, db'') \<Rightarrow> (Inr stock, db''))))))"

text \<open>The loop of \<open>remove_stock\<close> over the sorted lots; \<open>affected\<close> is \<open>affected_stocks\<close>.\<close>

fun remove_loop ::
  "datetime \<Rightarrow> inventory \<Rightarrow> Stock list \<Rightarrow> int \<Rightarrow> Stock list \<Rightarrow> (error + Stock list) \<times> inventory" where
  "remove_loop now db [] remaining_quantity affected = (Inr affected, db)"
| "remove_loop now db (stock # stocks) remaining_quantity affected =
     (if remaining_quantity \<le> 0 then (Inr affected, db)
      else
        (let available_in_stock = available_quantity stock;
             quantity_to_remove = min remaining_quantity available_in_stock
         in case Stock_remove_stock now stock quantity_to_remove of
              Inl e \<Rightarrow> (Inl e, db)
            | Inr stock' \<Rightarrow>
                (case update_stock db stock' of
                   (Inl e, db') \<Rightarrow> (Inl e, db')
                 | (Inr _, db') \<Rightarrow>
                     remove_loop now db' stocks (remaining_quantity - quantity_to_remove)
                       (affected @ [stock']))))"

definition remove_stock ::
  "datetime \<Rightarrow> inventory \<Rightarrow> int \<Rightarrow> int \<Rightarrow> int option \<Rightarrow> string option \<Rightarrow> string option \<Rightarrow>
   StockMovementType \<Rightarrow> (error + Stock list) \<times> inventory" where
  "remove_stock now db pid q rid rty n mty =
     (case product_find_by_id db pid of
        None \<Rightarrow> (Inl (ValueError ''Product not found''), db)
      | Some product \<Rightarrow>
          (let available_stock = get_available_stock_by_product db pid
           in if available_stock < q then (Inl (Insufficient_stock available_stock q), db)
              else
                (case find_stock_by_product_id db pid of
                   Inl e \<Rightarrow> (Inl e, db)
                 | Inr stocks \<Rightarrow>
                     (case remove_loop now db
                             (sort_key expiration_key
                                (filter (\<lambda>s. available_quantity s > 0) stocks)) q [] of
                        (Inl e, db') \<Rightarrow> (Inl e, db')
                      | (Inr affected_stocks, db') \<Rightarrow>
                          (case new_StockMovement None pid mty (- q) (Given rid) (Given rty) n
                                  (Some now) None of
                             Inl e \<Rightarrow> (Inl e, db')
                           | Inr movement \<Rightarrow>
                               (case save_movement db' movement of
                                  (Inl e, db'') \<Rightarrow> (Inl e, db'')
                                | (Inr _, db'') \<Rightarrow> (Inr affected_stocks, db'')))))))"

fun reserve_loop ::
  "inventory \<Rightarrow> Stock list \<Rightarrow> int \<Rightarrow> Stock list \<Rightarrow> (error + Stock list) \<times> inventory" where
  "reserve_loop db [] remaining_quantity affected = (Inr affected, db)"
| "reserve_loop db (stock # stocks) remaining_quantity affected =
     (if remaining_quantity \<le> 0 then (Inr affected, db)
      else
        (let available_in_stock = available_quantity stock;
             quantity_to_reserve = min remaining_quantity available_in_stock
         in case Stock_reserve_stock stock quantity_to_reserve of
              Inl e \<Rightarrow> (Inl e, db)
            | Inr stock' \<Rightarrow>
                (case update_stock db stock' of
                   (Inl e, db') \<Rightarrow> (Inl e, db')
                 | (Inr _, db') \<Rightarrow>
                     reserve_loop db' stocks (remaining_quantity - quantity_to_reserve)
                       (affected @ [stock']))))"

definition reserve_stock :: "inventory \<Rightarrow> int \<Rightarrow> int \<Rightarrow> (error + Stock list) \<times> inventory" where
  "reserve_stock db pid q =
     (let available_stock = get_available_stock_by_product db pid
      in if available_stock < q then (Inl (Insufficient_stock_to_reserve available_stock q), db)
         else
           (case find_stock_by_product_id db pid of
              Inl e \<Rightarrow> (Inl e, db)
            | Inr stocks \<Rightarrow>
                reserve_loop db
                  (sort_key expiration_key (filter (\<lambda>s. available_quantity s > 0) stocks)) q []))"

fun release_loop ::
  "inventory \<Rightarrow> Stock list \<Rightarrow> int \<Rightarrow> Stock list \<Rightarrow> (error + Stock list) \<times> inventory" where
  "release_loop db [] remaining_quantity affected = (Inr affected, db)"
| "release_loop db (stock # stocks) remaining_quantity affected =
     (if remaining_quantity \<le> 0 then (Inr affected, db)
      else
        (let reserved_in_stock = reserved_quantity stock;
             quantity_to_release = min remaining_quantity reserved_in_stock
         in case Stock_release_reservation stock quantity_to_release of
              Inl e \<Rightarrow> (Inl e, db)
            | Inr stock' \<Rightarrow>
                (case update_stock db stock' of
                   (Inl e, db') \<Rightarrow> (Inl e, db')
                 | (Inr _, db') \<Rightarrow>
                     release_loop db' stocks (remaining_quantity - quantity_to_release)
                       (affected @ [stock']))))"

definition release_reservation :: "inventory \<Rightarrow> int \<Rightarrow> int \<Rightarrow> (error + Stock list) \<times> inventory" where
  "release_reservation db pid q =
     (case find_stock_by_product_id db pid of
        Inl e \<Rightarrow> (Inl e, db)
      | Inr stocks \<Rightarrow> release_loop db (filter (\<lambda>s. reserved_quantity s > 0) stocks) q [])"

text \<open>
  \<open>adjust_stock\<close> builds its movement without \<open>reference_id\<close> and \<open>reference_type\<close>,
  before it touches any lot.
\<close>

definition adjust_stock ::
  "datetime \<Rightarrow> inventory \<Rightarrow> int \<Rightarrow> int \<Rightarrow> string \<Rightarrow> int option \<Rightarrow> (error + Stock) \<times> inventory" where
  "adjust_stock now db pid new_quantity reason user_id =
     (let current_stock = get_total_stock_by_product db pid;
          difference = new_quantity - current_stock
      in if difference = 0
         then (Inl (ValueError ''No adjustment needed, quantities are equal''), db)
         else
           (case new_StockMovement None pid ADJUSTMENT difference Omitted Omitted
                   (Some (''Stock adjustment: '' @ reason)) (Some now) user_id of
              Inl e \<Rightarrow> (Inl e, db)
            | Inr movement \<Rightarrow>
                (case save_movement db movement of
                   (Inl e, db1) \<Rightarrow> (Inl e, db1)
                 | (Inr _, db1) \<Rightarrow>
                     (case find_stock_by_product_id db1 pid of
                        Inl e \<Rightarrow> (Inl e, db1)
                      | Inr [] \<Rightarrow>
                          (case Stock_post_init
                                  \<lparr>stock_id = None, product_id = pid,
                                   current_quantity = new_quantity,
                                   reserved_quantity = 0, expiration_date = None,
                                   batch_number = None, location = None,
                                   last_updated = Some now\<rparr> of
                             Inl e \<Rightarrow> (Inl e, db1)
                           | Inr stock \<Rightarrow> save_stock db1 stock)
                      | Inr (main_stock # _) \<Rightarrow>
                          update_stock db1
                            (main_stock\<lparr>current_quantity := new_quantity,
                                        last_updated := Some now\<rparr>)))))"

section \<open>Appointment entity (domain/entities/appointment.py)\<close>

datatype AppointmentStatus = SCHEDULED | CONFIRMED | IN_PROGRESS | COMPLETED | CANCELLED | NO_SHOW

datatype AppointmentType = CONSULTATION | VACCINATION | SURGERY | EMERGENCY | FOLLOW_UP | GROOMING

text \<open>\<open>AppointmentType(value)\<close>: the member with that value, or ValueError.\<close>

definition AppointmentType_of_value :: "string \<Rightarrow> AppointmentType option" where
  "AppointmentType_of_value v =
     (if v = ''consultation'' then Some CONSULTATION
      else if v = ''vaccination'' then Some VACCINATION
      else if v = ''surgery'' then Some SURGERY
      else if v = ''emergency'' then Some EMERGENCY
      else if v = ''follow_up'' then Some FOLLOW_UP
      else if v = ''grooming'' then Some GROOMING
      else None)"

record Appointment =
  appointment_id :: "int option"
  pet_id :: int
  veterinarian_id :: "int option"
  appointment_date :: datetime
  duration_minutes :: int
  appointment_type :: AppointmentType
  status :: AppointmentStatus
  reason :: "string option"
  appointment_notes :: "string option"
  appointment_created_at :: "datetime option"
  updated_at :: "datetime option"
  appointment_created_by :: "int option"

text \<open>
  \<open>datetime.combine(d, t)\<close> for a time of day \<open>t\<close> given in microseconds;
  \<open>time.min\<close> is 0 and \<open>time.max\<close> is 23:59:59.999999. The datetimes of Python run
  from \<open>datetime.min\<close> (0001-01-01 00:00) to \<open>datetime.max\<close>
  (9999-12-31 23:59:59.999999).
\<close>

definition combine :: "date \<Rightarrow> int \<Rightarrow> datetime" where
  "combine d t = d * 86400000000 + t"

definition time_max :: int where
  "time_max = 86399999999"

definition datetime_min :: datetime where
  "datetime_min = combine 1 0"

definition datetime_max :: datetime where
  "datetime_max = combine date_max time_max"

text \<open>\<open>timedelta(minutes=n)\<close>, in microseconds.\<close>

definition timedelta_minutes :: "int \<Rightarrow> int" where
  "timedelta_minutes n = n * 60000000"

text \<open>
  \<open>t + timedelta(minutes=n)\<close>. The constructor of \<open>timedelta\<close> raises OverflowError
  when the interval is not within 999999999 days, and the addition raises OverflowError
  when the sum is not a datetime.
\<close>

definition plus_minutes :: "datetime \<Rightarrow> int \<Rightarrow> error + datetime" where
  "plus_minutes t n =
     (if timedelta_minutes n < - 999999999 * 86400000000 \<or>
         1000000000 * 86400000000 \<le> timedelta_minutes n
      then Inl (OverflowError ''days must have magnitude <= 999999999'')
      else if t + timedelta_minutes n < datetime_min \<or> datetime_max < t + timedelta_minutes n
      then Inl (OverflowError ''date value out of range'')
      else Inr (t + timedelta_minutes n))"

definition end_time :: "Appointment \<Rightarrow> error + datetime" where
  "end_time a = plus_minutes (appointment_date a) (duration_minutes a)"

text \<open>
  \<open>__post_init__\<close>: \<open>end_time\<close> is a property; reading it computes the end of the
  appointment, which may raise, and never gives \<open>None\<close>, so the body of the first
  \<open>if\<close> is never run; what is left is the check of the duration.
\<close>

definition Appointment_post_init :: "Appointment \<Rightarrow> error + Appointment" where
  "Appointment_post_init a =
     (case end_time a of
        Inl e \<Rightarrow> Inl e
      | Inr _ \<Rightarrow>
          if duration_minutes a \<le> 0 then Inl (ValueError ''Duration must be positive'')
          else Inr a)"

definition can_be_modified :: "Appointment \<Rightarrow> bool" where
  "can_be_modified a = (status a \<in> set [SCHEDULED, CONFIRMED, IN_PROGRESS])"

text \<open>\<open>if notes:\<close> and \<open>if reason:\<close> hold for a string that is neither \<open>None\<close> nor empty.\<close>

definition truthy :: "string option \<Rightarrow> bool" where
  "truthy s = (case s of None \<Rightarrow> False | Some v \<Rightarrow> v \<noteq> [])"

definition mark_as_completed :: "datetime \<Rightarrow> Appointment \<Rightarrow> string option \<Rightarrow> error + Appointment" where
  "mark_as_completed now a n =
     (if status a \<noteq> IN_PROGRESS
      then Inl (ValueError ''Only appointments in progress can be completed'')
      else Inr (a\<lparr>status := COMPLETED,
                  appointment_notes := (if truthy n then n else appointment_notes a),
                  updated_at := Some now\<rparr>))"

definition cancel :: "datetime \<Rightarrow> Appointment \<Rightarrow> string option \<Rightarrow> error + Appointment" where
  "cancel now a r =
     (if \<not> can_be_modified a then Inl (ValueError ''Cannot cancel this appointment'')
      else Inr (a\<lparr>status := CANCELLED,
                  appointment_notes :=
                    (case r of
                       None \<Rightarrow> appointment_notes a
                     | Some v \<Rightarrow>
                         if v \<noteq> [] then Some (''Cancelled: '' @ v) else appointment_notes a),
                  updated_at := Some now\<rparr>))"

section \<open>Appointment repositories\<close>

text \<open>
  Of a pet the service reads \<open>is_active\<close>, of a user its role; both are found by id.
\<close>

record Pet =
  pet_is_active :: bool

datatype UserRole = ADMIN | VETERINARIAN | RECEPTIONIST | ASSISTANT

record User =
  role :: UserRole

text \<open>
  The rows of table \<open>appointments\<close>, each written as the entity whose fields are its
  columns. Reading a row back (\<open>_model_to_entity\<close>) runs the constructor of
  \<open>Appointment\<close>.
\<close>

record clinic =
  pets :: "int \<rightharpoonup> Pet"
  users :: "int \<rightharpoonup> User"
  appointment_rows :: "Appointment list"

fun models_to_entities :: "Appointment list \<Rightarrow> error + Appointment list" where
  "models_to_entities [] = Inr []"
| "models_to_entities (r # rs) =
     (case Appointment_post_init r of
        Inl e \<Rightarrow> Inl e
      | Inr a \<Rightarrow>
          (case models_to_entities rs of
             Inl e \<Rightarrow> Inl e
           | Inr as \<Rightarrow> Inr (a # as)))"

definition find_by_id :: "clinic \<Rightarrow> int \<Rightarrow> error + Appointment option" where
  "find_by_id db i =
     (case find (\<lambda>r. appointment_id r = Some i) (appointment_rows db) of
        None \<Rightarrow> Inr None
      | Some r \<Rightarrow>
          (case Appointment_post_init r of
             Inl e \<Rightarrow> Inl e
           | Inr a \<Rightarrow> Inr (Some a)))"

fun update_first_appointment :: "int \<Rightarrow> Appointment \<Rightarrow> Appointment list \<Rightarrow> Appointment list option" where
  "update_first_appointment i a [] = None"
| "update_first_appointment i a (r # rs) =
     (if appointment_id r = Some i then Some (a\<lparr>appointment_created_at := appointment_created_at r\<rparr> # rs)
      else (case update_first_appointment i a rs of None \<Rightarrow> None | Some rs' \<Rightarrow> Some (r # rs')))"

text \<open>
  \<open>save\<close>: without an id the appointment is inserted under the next id; with one,
  \<open>_update_model_from_entity\<close> copies every column but \<open>id\<close> and \<open>created_at\<close>
  into the row of that id.
\<close>

definition save :: "clinic \<Rightarrow> Appointment \<Rightarrow> (error + Appointment) \<times> clinic" where
  "save db appointment =
     (case appointment_id appointment of
        None \<Rightarrow>
          (let appointment' =
                 appointment\<lparr>appointment_id :=
                   Some (next_id (map appointment_id (appointment_rows db)))\<rparr>
           in (Inr appointment', db\<lparr>appointment_rows := appointment_rows db @ [appointment']\<rparr>))
      | Some i \<Rightarrow>
          (case update_first_appointment i appointment (appointment_rows db) of
             None \<Rightarrow> (Inl (ValueError ''Appointment with ID not found''), db)
           | Some rows' \<Rightarrow> (Inr appointment, db\<lparr>appointment_rows := rows'\<rparr>)))"

text \<open>\<open>if not appointment.id\<close> holds for \<open>None\<close> and for 0.\<close>

definition update :: "clinic \<Rightarrow> Appointment \<Rightarrow> (error + Appointment) \<times> clinic" where
  "update db appointment =
     (if appointment_id appointment = None \<or> appointment_id appointment = Some 0
      then (Inl (ValueError ''Cannot update appointment without ID''), db)
      else save db appointment)"

definition find_by_date :: "clinic \<Rightarrow> date \<Rightarrow> error + Appointment list" where
  "find_by_date db d =
     models_to_entities
       (sort_key appointment_date
          (filter (\<lambda>r. combine d 0 \<le> appointment_date r \<and> appointment_date r \<le> combine d time_max)
             (appointment_rows db)))"

text \<open>
  \<open>check_availability\<close> builds its query before it runs it. The end of a row's
  appointment is written \<open>func.datetime(appointment_date, '+' + func.cast(duration_minutes, str) + ' minutes')\<close>:
  the cast is given Python's \<open>str\<close> where SQLAlchemy expects a SQL type, and using
  the cast as an operand of \<open>+\<close> raises TypeError. This happens while the first case
  of the \<open>or_\<close> is built, for every argument and every state of the table; no query
  is sent, and \<open>finally\<close> closes the session.
\<close>

definition check_availability :: "clinic \<Rightarrow> datetime \<Rightarrow> datetime \<Rightarrow> int \<Rightarrow> error + bool" where
  "check_availability db start_time' end_time' vid =
     Inl (TypeError ''Object associated with .type attribute is not a TypeEngine class or object'')"

section \<open>Appointment service (services/appointment_service.py)\<close>

text \<open>
  The dictionary \<open>appointment_data\<close>. A field of type \<open>option\<close> is what
  \<open>appointment_data.get(key)\<close> returns (\<open>None\<close> for a missing key); a field of type
  \<open>arg\<close> also tells a missing key from a key that is present. The date is a
  \<open>datetime\<close>, a string or something else, of which only its truth value matters;
  the duration, when present, is an integer.
  The service reads \<open>appointment_data['pet_id']\<close> and the other required fields only
  after the validation has found them present: \<open>the\<close> is applied to them there.
\<close>

datatype date_input = Datetime datetime | DateString string | OtherInput bool

record appointment_data =
  data_pet_id :: "int option"
  data_veterinarian_id :: "int option"
  data_appointment_date :: "date_input option"
  data_appointment_type :: "string option"
  data_duration_minutes :: "int arg"
  data_reason :: "string option arg"
  data_notes :: "string option arg"
  data_created_by :: "int option"

text \<open>\<open>not appointment_data.get(field)\<close> for the three required fields.\<close>

definition falsy_int :: "int option \<Rightarrow> bool" where
  "falsy_int v = (v = None \<or> v = Some 0)"

definition falsy_date :: "date_input option \<Rightarrow> bool" where
  "falsy_date v = (v = None \<or> v = Some (DateString []) \<or> v = Some (OtherInput False))"

definition falsy_string :: "string option \<Rightarrow> bool" where
  "falsy_string v = (v = None \<or> v = Some [])"

definition validate_appointment_data :: "appointment_data \<Rightarrow> error + unit" where
  "validate_appointment_data d =
     (if falsy_int (data_pet_id d) then Inl (ValueError ''pet_id is required'')
      else if falsy_date (data_appointment_date d)
        then Inl (ValueError ''appointment_date is required'')
      else if falsy_string (data_appointment_type d)
        then Inl (ValueError ''appointment_type is required'')
      else if AppointmentType_of_value (the (data_appointment_type d)) = None
        then Inl (ValueError ''Invalid appointment type'')
      else
        (case data_duration_minutes d of
           Omitted \<Rightarrow> Inr ()
         | Given duration \<Rightarrow>
             if duration \<le> 0 \<or> duration > 480
             then Inl (ValueError ''Duration must be between 1 and 480 minutes'')
             else Inr ()))"

text \<open>
  \<open>_parse_appointment_datetime\<close>. \<open>datetime.strptime\<close> belongs to Python's library: it
  is the parameter \<open>strptime\<close>, which takes the string and the format and returns
  \<open>None\<close> where the library raises ValueError.
\<close>

fun first_format :: "(string \<Rightarrow> string \<Rightarrow> datetime option) \<Rightarrow> string \<Rightarrow> string list \<Rightarrow> datetime option" where
  "first_format strptime s [] = None"
| "first_format strptime s (fmt # fmts) =
     (case strptime s fmt of Some t \<Rightarrow> Some t | None \<Rightarrow> first_format strptime s fmts)"

definition parse_appointment_datetime ::
  "(string \<Rightarrow> string \<Rightarrow> datetime option) \<Rightarrow> date_input \<Rightarrow> error + datetime" where
  "parse_appointment_datetime strptime date_input =
     (case date_input of
        Datetime t \<Rightarrow> Inr t
      | DateString s \<Rightarrow>
          (case first_format strptime s
                  [''%Y-%m-%d %H:%M:%S'', ''%Y-%m-%d %H:%M'', ''%Y-%m-%dT%H:%M:%S'',
                   ''%Y-%m-%dT%H:%M''] of
             Some t \<Rightarrow> Inr t
           | None \<Rightarrow> Inl (ValueError ''Invalid date format. Use YYYY-MM-DD HH:MM format''))
      | OtherInput _ \<Rightarrow> Inl (ValueError ''Date must be datetime object or string''))"

definition get_default_duration :: "AppointmentType \<Rightarrow> int" where
  "get_default_duration t =
     (case t of
        CONSULTATION \<Rightarrow> 30
      | VACCINATION \<Rightarrow> 15
      | SURGERY \<Rightarrow> 120
      | EMERGENCY \<Rightarrow> 60
      | FOLLOW_UP \<Rightarrow> 20
      | GROOMING \<Rightarrow> 60)"

text \<open>
  \<open>appointment_data.get(key, '').strip() or None\<close>: a missing key gives \<open>None\<close>, a key
  whose value is \<open>None\<close> raises AttributeError, a string is stripped of the whitespace
  around it and becomes \<open>None\<close> when nothing is left. A character is a code point
  below 256; of these \<open>str.isspace\<close> holds for 0x09 to 0x0D, 0x1C to 0x20, 0x85 and
  0xA0.
\<close>

definition is_space :: "char \<Rightarrow> bool" where
  "is_space c =
     (c \<in> set [CHR 0x09, CHR 0x0A, CHR 0x0B, CHR 0x0C, CHR 0x0D, CHR 0x1C, CHR 0x1D, CHR 0x1E,
                CHR 0x1F, CHR 0x20, CHR 0x85, CHR 0xA0])"

definition strip :: "string \<Rightarrow> string" where
  "strip s = rev (dropWhile is_space (rev (dropWhile is_space s)))"

definition strip_or_none :: "string option arg \<Rightarrow> error + string option" where
  "strip_or_none v =
     (case v of
        Omitted \<Rightarrow> Inr None
      | Given None \<Rightarrow> Inl (AttributeError ''NoneType object has no attribute strip'')
      | Given (Some s) \<Rightarrow> Inr (if strip s = [] then None else Some (strip s)))"

definition schedule_appointment ::
  "(string \<Rightarrow> string \<Rightarrow> datetime option) \<Rightarrow> datetime \<Rightarrow> clinic \<Rightarrow> appointment_data \<Rightarrow>
   (error + Appointment) \<times> clinic" where
  "schedule_appointment strptime now db d =
     (case validate_appointment_data d of
        Inl e \<Rightarrow> (Inl e, db)
      | Inr _ \<Rightarrow>
     (case pets db (the (data_pet_id d)) of
        None \<Rightarrow> (Inl (ValueError ''Pet not found''), db)
      | Some pet \<Rightarrow>
     if \<not> pet_is_active pet
     then (Inl (ValueError ''Cannot schedule appointment for inactive pet''), db)
     else
     (case
        (if falsy_int (data_veterinarian_id d) then Inr None
         else
           (case users db (the (data_veterinarian_id d)) of
              None \<Rightarrow> Inl (ValueError ''Veterinarian not found'')
            | Some veterinarian \<Rightarrow>
                if role veterinarian \<notin> set [VETERINARIAN, ADMIN]
                then Inl (ValueError ''Selected user is not a veterinarian'')
                else Inr (data_veterinarian_id d)))
      of
        Inl e \<Rightarrow> (Inl e, db)
      | Inr veterinarian_id' \<Rightarrow>
     (case parse_appointment_datetime strptime (the (data_appointment_date d)) of
        Inl e \<Rightarrow> (Inl e, db)
      | Inr appointment_date' \<Rightarrow>
     if appointment_date' < now
     then (Inl (ValueError ''Cannot schedule appointments in the past''), db)
     else
     (case AppointmentType_of_value (the (data_appointment_type d)) of
        None \<Rightarrow> (Inl (ValueError ''not a valid AppointmentType''), db)
      | Some appointment_type' \<Rightarrow>
     (let duration =
            (case data_duration_minutes d of
               Omitted \<Rightarrow> get_default_duration appointment_type'
             | Given m \<Rightarrow> m)
      in
     (case strip_or_none (data_reason d) of
        Inl e \<Rightarrow> (Inl e, db)
      | Inr reason' \<Rightarrow>
     (case strip_or_none (data_notes d) of
        Inl e \<Rightarrow> (Inl e, db)
      | Inr notes' \<Rightarrow>
     (case Appointment_post_init
             \<lparr>appointment_id = None, pet_id = the (data_pet_id d),
              veterinarian_id = veterinarian_id', appointment_date = appointment_date',
              duration_minutes = duration, appointment_type = appointment_type',
              status = SCHEDULED, reason = reason', appointment_notes = notes',
              appointment_created_at = Some now, updated_at = None,
              appointment_created_by = data_created_by d\<rparr> of
        Inl e \<Rightarrow> (Inl e, db)
      | Inr appointment \<Rightarrow> save db appointment)))))))))"

definition confirm_appointment :: "datetime \<Rightarrow> clinic \<Rightarrow> int \<Rightarrow> (error + Appointment) \<times> clinic" where
  "confirm_appointment now db i =
     (case find_by_id db i of
        Inl e \<Rightarrow> (Inl e, db)
      | Inr None \<Rightarrow> (Inl (ValueError ''Appointment not found''), db)
      | Inr (Some appointment) \<Rightarrow>
          if status appointment \<noteq> SCHEDULED
          then (Inl (ValueError ''Only scheduled appointments can be confirmed''), db)
          else update db (appointment\<lparr>status := CONFIRMED, updated_at := Some now\<rparr>))"

definition start_appointment :: "datetime \<Rightarrow> clinic \<Rightarrow> int \<Rightarrow> (error + Appointment) \<times> clinic" where
  "start_appointment now db i =
     (case find_by_id db i of
        Inl e \<Rightarrow> (Inl e, db)
      | Inr None \<Rightarrow> (Inl (ValueError ''Appointment not found''), db)
      | Inr (Some appointment) \<Rightarrow>
          if status appointment \<noteq> CONFIRMED
          then (Inl (ValueError ''Only confirmed appointments can be started''), db)
          else update db (appointment\<lparr>status := IN_PROGRESS, updated_at := Some now\<rparr>))"

definition complete_appointment ::
  "datetime \<Rightarrow> clinic \<Rightarrow> int \<Rightarrow> string option \<Rightarrow> (error + Appointment) \<times> clinic" where
  "complete_appointment now db i completion_notes =
     (case find_by_id db i of
        Inl e \<Rightarrow> (Inl e, db)
      | Inr None \<Rightarrow> (Inl (ValueError ''Appointment not found''), db)
      | Inr (Some appointment) \<Rightarrow>
          if status appointment \<noteq> IN_PROGRESS
          then (Inl (ValueError ''Only appointments in progress can be completed''), db)
          else
            (case mark_as_completed now appointment completion_notes of
               Inl e \<Rightarrow> (Inl e, db)
             | Inr appointment' \<Rightarrow> update db appointment'))"

definition cancel_appointment ::
  "datetime \<Rightarrow> clinic \<Rightarrow> int \<Rightarrow> string option \<Rightarrow> (error + Appointment) \<times> clinic" where
  "cancel_appointment now db i cancellation_reason =
     (case find_by_id db i of
        Inl e \<Rightarrow> (Inl e, db)
      | Inr None \<Rightarrow> (Inl (ValueError ''Appointment not found''), db)
      | Inr (Some appointment) \<Rightarrow>
          if \<not> can_be_modified appointment
          then (Inl (ValueError ''This appointment cannot be cancelled''), db)
          else
            (case cancel now appointment cancellation_reason of
               Inl e \<Rightarrow> (Inl e, db)
             | Inr appointment' \<Rightarrow> update db appointment'))"

text \<open>
  The dictionary \<open>update_data\<close>, with the keys the entity has as attributes. A value
  \<open>None\<close> stands for a missing key and for a key whose value is \<open>None\<close>, which the loop
  over the items skips alike; the date is read before the loop, so it tells the two
  apart. The appointment type arrives as a string or as a member of the enumeration.
\<close>

record update_data =
  new_pet_id :: "int option"
  new_veterinarian_id :: "int option"
  new_appointment_date :: "datetime option arg"
  new_duration_minutes :: "int option"
  new_appointment_type :: "(string + AppointmentType) option"
  new_status :: "AppointmentStatus option"
  new_reason :: "string option"
  new_notes :: "string option"

definition or_else :: "'a option \<Rightarrow> 'a \<Rightarrow> 'a" where
  "or_else v old = (case v of None \<Rightarrow> old | Some x \<Rightarrow> x)"

definition update_appointment ::
  "datetime \<Rightarrow> clinic \<Rightarrow> int \<Rightarrow> update_data \<Rightarrow> (error + Appointment) \<times> clinic" where
  "update_appointment now db i u =
     (case find_by_id db i of
        Inl e \<Rightarrow> (Inl e, db)
      | Inr None \<Rightarrow> (Inl (ValueError ''Appointment not found''), db)
      | Inr (Some appointment) \<Rightarrow>
          (case
             (case new_appointment_date u of
                Omitted \<Rightarrow> Inr None
              | Given None \<Rightarrow> Inl (AttributeError ''NoneType object has no attribute replace'')
              | Given (Some new_date) \<Rightarrow>
                  if new_date < now then Inl (ValueError ''Cannot reschedule to past date'')
                  else Inr (Some new_date))
           of
             Inl e \<Rightarrow> (Inl e, db)
           | Inr date' \<Rightarrow>
               (case
                  (case new_appointment_type u of
                     None \<Rightarrow> Inr None
                   | Some (Inr t) \<Rightarrow> Inr (Some t)
                   | Some (Inl s) \<Rightarrow>
                       (case AppointmentType_of_value s of
                          None \<Rightarrow> Inl (ValueError ''not a valid AppointmentType'')
                        | Some t \<Rightarrow> Inr (Some t)))
                of
                  Inl e \<Rightarrow> (Inl e, db)
                | Inr type' \<Rightarrow>
                    update db
                      (appointment
                         \<lparr>pet_id := or_else (new_pet_id u) (pet_id appointment),
                          veterinarian_id :=
                            (case new_veterinarian_id u of
                               None \<Rightarrow> veterinarian_id appointment
                             | Some v \<Rightarrow> Some v),
                          appointment_date := or_else date' (appointment_date appointment),
                          duration_minutes :=
                            or_else (new_duration_minutes u) (duration_minutes appointment),
                          appointment_type := or_else type' (appointment_type appointment),
                          status := or_else (new_status u) (status appointment),
                          reason :=
                            (case new_reason u of
                               None \<Rightarrow> reason appointment
                             | Some r \<Rightarrow> Some r),
                          appointment_notes :=
                            (case new_notes u of
                               None \<Rightarrow> appointment_notes appointment
                             | Some n \<Rightarrow> Some n),
                          updated_at := Some now\<rparr>))))"

text \<open>
  \<open>get_availability_slots\<close>. A slot is the dictionary with the keys \<open>start_time\<close>,
  \<open>end_time\<close> and \<open>display_time\<close>; \<open>strftime('%H:%M')\<close> prints the hour and the
  minute of the day with two digits each.
\<close>

record slot =
  slot_start_time :: datetime
  slot_end_time :: datetime
  display_time :: string

definition two_digits :: "int \<Rightarrow> string" where
  "two_digits n = [''0123456789'' ! nat (n div 10 mod 10), ''0123456789'' ! nat (n mod 10)]"

definition strftime_HM :: "datetime \<Rightarrow> string" where
  "strftime_HM t = two_digits (t div 3600000000 mod 24) @ '':'' @ two_digits (t div 60000000 mod 60)"

definition new_slot :: "datetime \<Rightarrow> datetime \<Rightarrow> slot" where
  "new_slot current_time slot_end =
     \<lparr>slot_start_time = current_time, slot_end_time = slot_end,
      display_time = strftime_HM current_time @ '' - '' @ strftime_HM slot_end\<rparr>"

text \<open>
  The inner \<open>for\<close> loop with its \<open>break\<close>: the slot is available when no
  appointment of the list overlaps it. \<open>appointment.end_time\<close> is read for every
  appointment the loop reaches.
\<close>

fun is_available :: "datetime \<Rightarrow> datetime \<Rightarrow> Appointment list \<Rightarrow> error + bool" where
  "is_available current_time slot_end [] = Inr True"
| "is_available current_time slot_end (appointment # appointments) =
     (case end_time appointment of
        Inl e \<Rightarrow> Inl e
      | Inr appointment_end \<Rightarrow>
          if current_time < appointment_end \<and> slot_end > appointment_date appointment
          then Inr False
          else is_available current_time slot_end appointments)"

text \<open>
  The \<open>while\<close> loop. An exception leaves the loop and the function, and the slots
  collected so far are lost with it.
\<close>

function slots_loop ::
  "Appointment list \<Rightarrow> datetime \<Rightarrow> int \<Rightarrow> datetime \<Rightarrow> error + slot list" where
  "slots_loop existing_appointments day_end duration current_time =
     (case plus_minutes current_time duration of
        Inl e \<Rightarrow> Inl e
      | Inr slot_end \<Rightarrow>
          if slot_end \<le> day_end
          then
            (case is_available current_time slot_end existing_appointments of
               Inl e \<Rightarrow> Inl e
             | Inr available \<Rightarrow>
                 (case plus_minutes current_time 30 of
                    Inl e \<Rightarrow> Inl e
                  | Inr next_time \<Rightarrow>
                      (case slots_loop existing_appointments day_end duration next_time of
                         Inl e \<Rightarrow> Inl e
                       | Inr available_slots \<Rightarrow>
                           Inr ((if available then [new_slot current_time slot_end] else []) @
                                available_slots))))
          else Inr [])"
  by pat_completeness auto
termination
proof (relation "measure (\<lambda>(existing, day_end, duration, current_time).
        nat (day_end - current_time - timedelta_minutes duration + 1))")
  show "wf (measure (\<lambda>(existing, day_end, duration, current_time).
        nat (day_end - current_time - timedelta_minutes duration + 1)))"
    by simp
next
  fix existing_appointments :: "Appointment list" and day_end duration current_time slot_end
    next_time :: int and available :: bool
  assume "plus_minutes current_time duration = Inr slot_end" "slot_end \<le> day_end"
    "plus_minutes current_time 30 = Inr next_time"
  then show "((existing_appointments, day_end, duration, next_time),
         (existing_appointments, day_end, duration, current_time))
        \<in> measure (\<lambda>(existing, day_end, duration, current_time).
              nat (day_end - current_time - timedelta_minutes duration + 1))"
    by (auto simp: plus_minutes_def timedelta_minutes_def split: if_splits)
qed

definition get_availability_slots :: "clinic \<Rightarrow> date \<Rightarrow> int \<Rightarrow> int \<Rightarrow> error + slot list" where
  "get_availability_slots db date_target vid duration =
     (case find_by_date db date_target of
        Inl e \<Rightarrow> Inl e
      | Inr appointments \<Rightarrow>
          slots_loop
            (filter (\<lambda>apt. veterinarian_id apt = Some vid \<and>
                            status apt \<in> set [SCHEDULED, CONFIRMED, IN_PROGRESS])
               appointments)
            (combine date_target (18 * 3600000000)) duration
            (combine date_target (8 * 3600000000)))"
section \<open>Stating the inventory claims\<close>

text \<open>
  The invariant of a lot (spec, section 4.2): \<open>current_quantity \<ge> 0\<close>,
  \<open>0 \<le> reserved_quantity \<le> current_quantity\<close> and
  \<open>available_quantity = current_quantity - reserved_quantity \<ge> 0\<close>.
\<close>

definition lot_invariant :: "Stock \<Rightarrow> bool" where
  "lot_invariant s =
     (0 \<le> current_quantity s \<and> 0 \<le> reserved_quantity s \<and>
      reserved_quantity s \<le> current_quantity s \<and>
      available_quantity s = current_quantity s - reserved_quantity s \<and>
      0 \<le> available_quantity s)"

text \<open>
  The three loops of the service are one walk, with its amount and the method of the
  entity it calls.
\<close>

fun walk_loop ::
  "(Stock \<Rightarrow> int) \<Rightarrow> (Stock \<Rightarrow> int \<Rightarrow> error + Stock) \<Rightarrow> inventory \<Rightarrow> Stock list \<Rightarrow> int \<Rightarrow>
   Stock list \<Rightarrow> (error + Stock list) \<times> inventory" where
  "walk_loop amount mutate db [] remaining affected = (Inr affected, db)"
| "walk_loop amount mutate db (stock # stocks) remaining affected =
     (if remaining \<le> 0 then (Inr affected, db)
      else
        (case mutate stock (min remaining (amount stock)) of
           Inl e \<Rightarrow> (Inl e, db)
         | Inr stock' \<Rightarrow>
             (case update_stock db stock' of
                (Inl e, db') \<Rightarrow> (Inl e, db')
              | (Inr _, db') \<Rightarrow>
                  walk_loop amount mutate db' stocks (remaining - min remaining (amount stock))
                    (affected @ [stock']))))"

text \<open>
  The lots of the spec's FIFO scenario, for product 1: 5 units expiring 2024-03-01
  (ordinal 738946), 10 units expiring 2024-06-01 (ordinal 739038) and 20 units without an
  expiration date, stored in the reverse of the order they are consumed in.
\<close>

definition lot_march :: Stock where
  "lot_march =
     \<lparr>stock_id = Some 1, product_id = 1, current_quantity = 5, reserved_quantity = 0,
      expiration_date = Some 738946, batch_number = None, location = None,
      last_updated = None\<rparr>"

definition lot_june :: Stock where
  "lot_june =
     \<lparr>stock_id = Some 2, product_id = 1, current_quantity = 10, reserved_quantity = 0,
      expiration_date = Some 739038, batch_number = None, location = None,
      last_updated = None\<rparr>"

definition lot_no_expiration :: Stock where
  "lot_no_expiration =
     \<lparr>stock_id = Some 3, product_id = 1, current_quantity = 20, reserved_quantity = 0,
      expiration_date = None, batch_number = None, location = None, last_updated = None\<rparr>"

definition fifo_inventory :: inventory where
  "fifo_inventory =
     \<lparr>products = [1 \<mapsto> \<lparr>model_status = ACTIVE\<rparr>],
      stock_rows = [lot_no_expiration, lot_june, lot_march],
      movement_rows = []\<rparr>"

text \<open>One lot of 10 units, 3 of them reserved.\<close>

definition lot_reserved :: Stock where
  "lot_reserved =
     \<lparr>stock_id = Some 1, product_id = 1, current_quantity = 10, reserved_quantity = 3,
      expiration_date = None, batch_number = None, location = None, last_updated = None\<rparr>"

definition reserved_inventory :: inventory where
  "reserved_inventory =
     \<lparr>products = [1 \<mapsto> \<lparr>model_status = ACTIVE\<rparr>],
      stock_rows = [lot_reserved],
      movement_rows = []\<rparr>"

text \<open>
  Two lots of product 1 with 5 units each: one without expiration date, stored first, and
  one that expires on 9999-12-31 (\<open>date.max\<close>, ordinal 3652059).
\<close>

definition lot_undated :: Stock where
  "lot_undated =
     \<lparr>stock_id = Some 1, product_id = 1, current_quantity = 5, reserved_quantity = 0,
      expiration_date = None, batch_number = None, location = None, last_updated = None\<rparr>"

definition lot_last_day :: Stock where
  "lot_last_day =
     \<lparr>stock_id = Some 2, product_id = 1, current_quantity = 5, reserved_quantity = 0,
      expiration_date = Some 3652059, batch_number = None, location = None,
      last_updated = None\<rparr>"

definition tie_inventory :: inventory where
  "tie_inventory =
     \<lparr>products = [1 \<mapsto> \<lparr>model_status = ACTIVE\<rparr>],
      stock_rows = [lot_undated, lot_last_day],
      movement_rows = []\<rparr>"

text \<open>The primary key of table \<open>stock\<close>: every row has an id, and no two rows share one.\<close>

definition primary_key_ok :: "Stock list \<Rightarrow> bool" where
  "primary_key_ok rows = (distinct (map stock_id rows) \<and> list_all (\<lambda>r. stock_id r \<noteq> None) rows)"

text \<open>
  The order in which \<open>remove_stock\<close> and \<open>reserve_stock\<close> walk the lots (lines 130 to
  132 and 173 to 175): the lots of the product with \<open>available_quantity > 0\<close>, sorted
  by \<open>expiration_date or date.max\<close> with Python's stable sort.
\<close>

definition fifo_order :: "inventory \<Rightarrow> int \<Rightarrow> Stock list" where
  "fifo_order db pid =
     sort_key expiration_key
       (filter (\<lambda>s. 0 < available_quantity s) (filter (\<lambda>r. product_id r = pid) (stock_rows db)))"

text \<open>
  Spec, section 4.2, the greedy walk: each lot in turn gives up
  \<open>min(remaining, lot.available)\<close>, and \<open>remaining\<close> decreases by the same amount.
  \<open>greedy_taken remaining lots lot\<close> is what the walk takes from \<open>lot\<close>.
\<close>

fun greedy_taken :: "int \<Rightarrow> Stock list \<Rightarrow> Stock \<Rightarrow> int" where
  "greedy_taken remaining [] lot = 0"
| "greedy_taken remaining (s # ss) lot =
     (if lot = s then min remaining (available_quantity s)
      else greedy_taken (remaining - min remaining (available_quantity s)) ss lot)"

text \<open>A lot after \<open>t\<close> units were consumed from it, and after \<open>t\<close> units were reserved.\<close>

definition consume_lot :: "datetime \<Rightarrow> Stock \<Rightarrow> int \<Rightarrow> Stock" where
  "consume_lot now lot t =
     (if 0 < t then lot\<lparr>current_quantity := current_quantity lot - t, last_updated := Some now\<rparr>
      else lot)"

definition reserve_lot :: "Stock \<Rightarrow> int \<Rightarrow> Stock" where
  "reserve_lot lot t =
     (if 0 < t then lot\<lparr>reserved_quantity := reserved_quantity lot + t\<rparr> else lot)"

text \<open>
  Ascending expiration dates, a lot without expiration date counted as expiring on
  \<open>date.max\<close>: it follows every lot that expires earlier.
\<close>

definition consumed_no_later :: "date option \<Rightarrow> date option \<Rightarrow> bool" where
  "consumed_no_later a b =
     (case a of
        Some x \<Rightarrow> (case b of Some y \<Rightarrow> x \<le> y | None \<Rightarrow> x \<le> date_max)
      | None \<Rightarrow> (case b of Some y \<Rightarrow> date_max \<le> y | None \<Rightarrow> True))"

text \<open>A lot whose expiration date, if it has one, is before \<open>date.max\<close>.\<close>

definition expires_before_max :: "Stock \<Rightarrow> bool" where
  "expires_before_max s = (case expiration_date s of None \<Rightarrow> True | Some x \<Rightarrow> x < date_max)"

text \<open>A ledger entry whose quantity is not zero.\<close>

definition movement_nonzero :: "StockMovement \<Rightarrow> bool" where
  "movement_nonzero m = (quantity m \<noteq> 0)"

text \<open>
  The repository of the FIFO scenario with a ledger that already holds the purchase of the
  35 units, and the movement a sale of 8 units builds.
\<close>

definition purchase_entry :: StockMovement where
  "purchase_entry =
     \<lparr>movement_id = Some 1, movement_product_id = 1, movement_type = PURCHASE, quantity = 35,
      reference_id = None, reference_type = None, movement_notes = None, created_at = None,
      created_by = None\<rparr>"

definition ledger_inventory :: inventory where
  "ledger_inventory = fifo_inventory\<lparr>movement_rows := [purchase_entry]\<rparr>"

definition sale_entry :: StockMovement where
  "sale_entry =
     \<lparr>movement_id = None, movement_product_id = 1, movement_type = SALE, quantity = - 8,
      reference_id = None, reference_type = None, movement_notes = None, created_at = Some 0,
      created_by = None\<rparr>"

section \<open>Stating the appointment claims\<close>

text \<open>
  Spec, section 4.1: the half-open overlap test \<open>start < apptEnd AND end > apptStart\<close>,
  the end of an appointment (its start plus its duration), and the states in which an
  appointment blocks its practitioner.
\<close>

definition appointment_end :: "Appointment \<Rightarrow> datetime" where
  "appointment_end a = appointment_date a + timedelta_minutes (duration_minutes a)"

definition overlaps :: "datetime \<Rightarrow> datetime \<Rightarrow> datetime \<Rightarrow> datetime \<Rightarrow> bool" where
  "overlaps start end' appt_start appt_end = (start < appt_end \<and> end' > appt_start)"

definition blocking :: "Appointment \<Rightarrow> bool" where
  "blocking a = (status a \<in> set [SCHEDULED, CONFIRMED, IN_PROGRESS])"

text \<open>
  Spec, section 4.1, \<open>computeFreeSlots\<close>: the day runs from 08:00 to 18:00; the
  candidate windows start at the start of the day, 30 minutes apart, each of the requested
  length, as long as the window ends by the end of the day; a window is free when no
  blocking appointment of the practitioner overlaps it.
\<close>

definition day_start :: "date \<Rightarrow> datetime" where
  "day_start d = combine d (8 * 3600000000)"

definition day_end :: "date \<Rightarrow> datetime" where
  "day_end d = combine d (18 * 3600000000)"

definition candidate_windows :: "date \<Rightarrow> int \<Rightarrow> (datetime \<times> datetime) list" where
  "candidate_windows d duration =
     map (\<lambda>k. (day_start d + timedelta_minutes (30 * int k),
                day_start d + timedelta_minutes (30 * int k) + timedelta_minutes duration))
       [0 ..< nat ((600 - duration) div 30 + 1)]"

definition is_free :: "Appointment list \<Rightarrow> int \<Rightarrow> datetime \<times> datetime \<Rightarrow> bool" where
  "is_free rows vid w =
     (\<not> (\<exists>a\<in>set rows. veterinarian_id a = Some vid \<and> blocking a \<and>
            overlaps (fst w) (snd w) (appointment_date a) (appointment_end a)))"

text \<open>The appointments that start on the date, which are those \<open>find_by_date\<close> selects.\<close>

definition on_date :: "date \<Rightarrow> Appointment list \<Rightarrow> Appointment list" where
  "on_date d rows =
     filter (\<lambda>r. combine d 0 \<le> appointment_date r \<and> appointment_date r \<le> combine d time_max) rows"

definition candidate_starts :: "date \<Rightarrow> int \<Rightarrow> datetime list" where
  "candidate_starts d duration =
     map (\<lambda>k. day_start d + timedelta_minutes (30 * int k))
       [0 ..< nat ((600 - duration) div 30 + 1)]"

text \<open>
  The spec's scenario: on 2030-01-07 (ordinal 741084) veterinarian 2 has a confirmed
  appointment from 10:00 to 10:30. \<open>clock d h m\<close> is \<open>h:m\<close> on day \<open>d\<close>.
\<close>

definition clock :: "date \<Rightarrow> int \<Rightarrow> int \<Rightarrow> datetime" where
  "clock d h m = combine d (timedelta_minutes (h * 60 + m))"

definition booked :: Appointment where
  "booked =
     \<lparr>appointment_id = Some 1, pet_id = 1, veterinarian_id = Some 2,
      appointment_date = clock 741084 10 0, duration_minutes = 30,
      appointment_type = CONSULTATION, status = CONFIRMED, reason = None,
      appointment_notes = None, appointment_created_at = None, updated_at = None,
      appointment_created_by = None\<rparr>"

definition example_clinic :: clinic where
  "example_clinic =
     \<lparr>pets = [1 \<mapsto> \<lparr>pet_is_active = True\<rparr>],
      users = [2 \<mapsto> \<lparr>role = VETERINARIAN\<rparr>],
      appointment_rows = [booked]\<rparr>"

text \<open>A request for the same veterinarian from 10:15 to 10:45, and the appointment it makes.\<close>

definition conflicting_request :: appointment_data where
  "conflicting_request =
     \<lparr>data_pet_id = Some 1, data_veterinarian_id = Some 2,
      data_appointment_date = Some (Datetime (clock 741084 10 15)),
      data_appointment_type = Some ''consultation'',
      data_duration_minutes = Given 30, data_reason = Omitted, data_notes = Omitted,
      data_created_by = None\<rparr>"

definition double_booked :: Appointment where
  "double_booked =
     \<lparr>appointment_id = Some 2, pet_id = 1, veterinarian_id = Some 2,
      appointment_date = clock 741084 10 15, duration_minutes = 30,
      appointment_type = CONSULTATION, status = SCHEDULED, reason = None,
      appointment_notes = None, appointment_created_at = Some (clock 741084 8 0),
      updated_at = None, appointment_created_by = None\<rparr>"

text \<open>
  The same appointment once completed and once only scheduled, and an update that changes
  the notes alone.
\<close>

definition finished :: Appointment where
  "finished = booked\<lparr>status := COMPLETED\<rparr>"

definition finished_clinic :: clinic where
  "finished_clinic = example_clinic\<lparr>appointment_rows := [finished]\<rparr>"

definition only_notes :: update_data where
  "only_notes =
     \<lparr>new_pet_id = None, new_veterinarian_id = None, new_appointment_date = Omitted,
      new_duration_minutes = None, new_appointment_type = None, new_status = None,
      new_reason = None, new_notes = Some ''rewritten''\<rparr>"

definition requested :: Appointment where
  "requested = booked\<lparr>status := SCHEDULED\<rparr>"

definition requested_clinic :: clinic where
  "requested_clinic = example_clinic\<lparr>appointment_rows := [requested]\<rparr>"

text \<open>
  A confirmed appointment of veterinarian 2 that starts at 23:30 on the day before
  2030-01-07 and lasts 600 minutes, until 09:30 on 2030-01-07.
\<close>

definition overnight :: Appointment where
  "overnight = booked\<lparr>appointment_date := clock 741083 23 30, duration_minutes := 600\<rparr>"

definition overnight_clinic :: clinic where
  "overnight_clinic = example_clinic\<lparr>appointment_rows := [overnight]\<rparr>"

section \<open>Properties of the inventory\<close>

subsection \<open>The lot invariant\<close>

lemma Stock_post_init_Inr: "Stock_post_init r = Inr s \<Longrightarrow> s = r \<and> lot_invariant r \<and> 0 < product_id r"
  by (auto simp: Stock_post_init_def lot_invariant_def available_quantity_def split: if_splits)

lemma stock_models_to_domain_Inr:
  "stock_models_to_domain rs = Inr ss \<Longrightarrow> ss = rs \<and> list_all lot_invariant rs \<and> list_all (\<lambda>r. 0 < product_id r) rs"
  by (induction rs arbitrary: ss) (auto split: sum.splits dest!: Stock_post_init_Inr)

lemma update_first_list_all:
  "update_first i s rows = Some rows' \<Longrightarrow> P s \<Longrightarrow> list_all P rows \<Longrightarrow> list_all P rows'"
  by (induction rows arbitrary: rows') (auto split: if_splits option.splits)

lemma save_stock_list_all:
  "P (s\<lparr>stock_id := Some (next_id (map stock_id (stock_rows db)))\<rparr>) \<Longrightarrow> P s \<Longrightarrow> list_all P (stock_rows db) \<Longrightarrow>
   list_all P (stock_rows (snd (save_stock db s)))"
  by (auto simp: save_stock_def Let_def split: option.splits dest: update_first_list_all)

lemma lot_invariant_stock_id [simp]: "lot_invariant (s\<lparr>stock_id := i\<rparr>) = lot_invariant s"
  by (simp add: lot_invariant_def available_quantity_def)

lemma save_stock_invariant:
  "lot_invariant s \<Longrightarrow> list_all lot_invariant (stock_rows db) \<Longrightarrow>
   list_all lot_invariant (stock_rows (snd (save_stock db s)))"
  by (rule save_stock_list_all) simp_all

lemma save_movement_fails [simp]:
  "save_movement db m =
     (Inl (StatementError ''movement_type is not among the defined enum values''), db)"
  by (simp add: save_movement_def)

lemma read_product_not_active [simp]: "\<not> is_active (product_model_to_domain model)"
  by (simp add: is_active_def product_model_to_domain_def)

lemma product_find_by_id_None [simp]:
  "(product_find_by_id db pid = None) = (products db pid = None)"
  by (simp add: product_find_by_id_def)

lemma product_find_by_id_Some:
  "products db pid = Some model \<Longrightarrow>
   product_find_by_id db pid = Some (product_model_to_domain model)"
  by (simp add: product_find_by_id_def)

lemma Stock_remove_stock_invariant:
  "Stock_remove_stock now s q = Inr s' \<Longrightarrow> lot_invariant s \<Longrightarrow> lot_invariant s'"
  by (auto simp: Stock_remove_stock_def lot_invariant_def available_quantity_def split: if_splits)

lemma Stock_reserve_stock_invariant:
  "Stock_reserve_stock s q = Inr s' \<Longrightarrow> lot_invariant s \<Longrightarrow> lot_invariant s'"
  by (auto simp: Stock_reserve_stock_def lot_invariant_def available_quantity_def split: if_splits)

lemma Stock_release_reservation_invariant:
  "Stock_release_reservation s q = Inr s' \<Longrightarrow> lot_invariant s \<Longrightarrow> lot_invariant s'"
  by (auto simp: Stock_release_reservation_def lot_invariant_def available_quantity_def split: if_splits)

lemma Stock_add_stock_invariant:
  "Stock_add_stock now s q = Inr s' \<Longrightarrow> lot_invariant s \<Longrightarrow> lot_invariant s'"
  by (auto simp: Stock_add_stock_def lot_invariant_def available_quantity_def split: if_splits)

lemma remove_loop_walk:
  "remove_loop now db stocks r aff = walk_loop available_quantity (Stock_remove_stock now) db stocks r aff"
  by (induction stocks arbitrary: db r aff) (auto simp: Let_def split: sum.splits prod.splits)

lemma reserve_loop_walk:
  "reserve_loop db stocks r aff = walk_loop available_quantity Stock_reserve_stock db stocks r aff"
  by (induction stocks arbitrary: db r aff) (auto simp: Let_def split: sum.splits prod.splits)

lemma release_loop_walk:
  "release_loop db stocks r aff = walk_loop reserved_quantity Stock_release_reservation db stocks r aff"
  by (induction stocks arbitrary: db r aff) (auto simp: Let_def split: sum.splits prod.splits)

lemma walk_loop_invariant:
  assumes mutate: "\<And>s q s'. mutate s q = Inr s' \<Longrightarrow> lot_invariant s \<Longrightarrow> lot_invariant s'"
  shows "list_all lot_invariant stocks \<Longrightarrow> list_all lot_invariant (stock_rows db) \<Longrightarrow>
   list_all lot_invariant (stock_rows (snd (walk_loop amount mutate db stocks r aff)))"
proof (induction stocks arbitrary: db r aff)
  case Nil
  then show ?case by simp
next
  case (Cons s stocks)
  have step: "list_all lot_invariant (stock_rows (snd (update_stock db s')))"
    if "mutate s (min r (amount s)) = Inr s'" for s'
    using that Cons.prems save_stock_invariant [of s' db]
    by (auto simp: update_stock_def dest: mutate)
  from Cons.prems Cons.IH step show ?case
    by (auto split: sum.splits prod.splits)
qed

lemma save_stock_movement_rows [simp]: "movement_rows (snd (save_stock db s)) = movement_rows db"
  by (simp add: save_stock_def Let_def split: option.splits)

lemma save_stock_products [simp]: "products (snd (save_stock db s)) = products db"
  by (simp add: save_stock_def Let_def split: option.splits)

lemma walk_loop_movement_rows [simp]:
  "movement_rows (snd (walk_loop amount mutate db stocks r aff)) = movement_rows db"
proof (induction stocks arbitrary: db r aff)
  case Nil
  show ?case by simp
next
  case (Cons s stocks)
  have "movement_rows (snd (update_stock db s')) = movement_rows db" for s'
    by (simp add: update_stock_def)
  with Cons.IH show ?case
    by (auto split: sum.splits prod.splits) (metis snd_conv)+
qed


lemma find_stock_by_product_id_Inr:
  "find_stock_by_product_id db pid = Inr ss \<Longrightarrow>
   ss = filter (\<lambda>r. product_id r = pid) (stock_rows db) \<and> list_all lot_invariant ss"
  by (auto simp: find_stock_by_product_id_def dest: stock_models_to_domain_Inr)

lemma find_Some_list_all: "find P xs = Some x \<Longrightarrow> list_all Q xs \<Longrightarrow> Q x"
  by (induction xs) (auto split: if_splits)


lemma add_stock_lot_invariant:
  assumes inv: "list_all lot_invariant (stock_rows db)"
    and existing: "list_all lot_invariant existing"
  shows "list_all lot_invariant
           (stock_rows (snd (add_stock_lot now db pid q exp batch loc existing)))"
proof (cases "find (\<lambda>stock. batch_number stock = batch \<and> location stock = loc \<and>
                expiration_date stock = exp) existing")
  case None
  then show ?thesis
    using inv save_stock_invariant [of _ db]
    by (auto simp: add_stock_lot_def split: sum.splits dest!: Stock_post_init_Inr)
next
  case (Some m)
  from Some existing have "lot_invariant m" by (rule find_Some_list_all)
  with Some show ?thesis
    using inv save_stock_invariant [of _ db]
    by (auto simp: add_stock_lot_def update_stock_def split: sum.splits
        dest: Stock_add_stock_invariant)
qed

lemma add_stock_lot_movement_rows [simp]:
  "movement_rows (snd (add_stock_lot now db pid q exp batch loc existing)) = movement_rows db"
  by (simp add: add_stock_lot_def update_stock_def split: option.splits sum.splits)

lemma add_stock_refused:
  "add_stock now db pid q exp batch loc rid rty n =
     (case products db pid of
        None \<Rightarrow> (Inl (ValueError ''Product not found''), db)
      | Some model \<Rightarrow> (Inl (ValueError ''Cannot add stock to inactive product''), db))"
  by (cases "products db pid") (simp_all add: add_stock_def product_find_by_id_def)

lemma add_stock_state [simp]: "snd (add_stock now db pid q exp batch loc rid rty n) = db"
  by (simp add: add_stock_refused split: option.splits)

lemma add_stock_invariant:
  assumes inv: "list_all lot_invariant (stock_rows db)"
  shows "list_all lot_invariant (stock_rows (snd (add_stock now db pid q exp batch loc rid rty n)))"
  using inv by simp

lemma remove_stock_invariant:
  assumes inv: "list_all lot_invariant (stock_rows db)"
  shows "list_all lot_invariant (stock_rows (snd (remove_stock now db pid q rid rty n mty)))"
proof (cases "products db pid")
  case None
  with inv show ?thesis by (simp add: remove_stock_def product_find_by_id_def)
next
  case (Some model)
  note found = product_find_by_id_Some [OF Some]
  show ?thesis
  proof (cases "find_stock_by_product_id db pid")
    case (Inl e)
    with found inv show ?thesis by (simp add: remove_stock_def Let_def)
  next
    case (Inr stocks)
    define walked where "walked = remove_loop now db
      (sort_key expiration_key (filter (\<lambda>s. available_quantity s > 0) stocks)) q []"
    from Inr have "list_all lot_invariant stocks"
      by (auto dest: find_stock_by_product_id_Inr)
    then have walked: "list_all lot_invariant (stock_rows (snd walked))"
      unfolding walked_def remove_loop_walk using inv
      by (intro walk_loop_invariant) (auto simp: list_all_iff dest: Stock_remove_stock_invariant)
    have "remove_stock now db pid q rid rty n mty =
      (if get_available_stock_by_product db pid < q
       then (Inl (Insufficient_stock (get_available_stock_by_product db pid) q), db)
       else (case walked of
          (Inl e, db') \<Rightarrow> (Inl e, db')
        | (Inr affected_stocks, db') \<Rightarrow>
            (case new_StockMovement None pid mty (- q) (Given rid) (Given rty) n
                    (Some now) None of
               Inl e \<Rightarrow> (Inl e, db')
             | Inr movement \<Rightarrow>
                 (case save_movement db' movement of
                    (Inl e, db'') \<Rightarrow> (Inl e, db'')
                  | (Inr _, db'') \<Rightarrow> (Inr affected_stocks, db'')))))"
      by (simp add: remove_stock_def Let_def found Inr walked_def)
    then have "stock_rows (snd (remove_stock now db pid q rid rty n mty)) =
      (if get_available_stock_by_product db pid < q then stock_rows db
       else stock_rows (snd walked))"
      by (cases walked) (simp split: sum.splits)
    with walked inv show ?thesis by simp
  qed
qed

lemma reserve_stock_invariant:
  assumes inv: "list_all lot_invariant (stock_rows db)"
  shows "list_all lot_invariant (stock_rows (snd (reserve_stock db pid q)))"
proof (cases "find_stock_by_product_id db pid")
  case (Inl e)
  with inv show ?thesis by (simp add: reserve_stock_def Let_def)
next
  case (Inr stocks)
  then have "list_all lot_invariant stocks"
    by (auto dest: find_stock_by_product_id_Inr)
  then have "list_all lot_invariant (stock_rows (snd (reserve_loop db
      (sort_key expiration_key (filter (\<lambda>s. available_quantity s > 0) stocks)) q [])))"
    unfolding reserve_loop_walk using inv
    by (intro walk_loop_invariant) (auto simp: list_all_iff dest: Stock_reserve_stock_invariant)
  with Inr inv show ?thesis by (simp add: reserve_stock_def Let_def)
qed

lemma release_reservation_invariant:
  assumes inv: "list_all lot_invariant (stock_rows db)"
  shows "list_all lot_invariant (stock_rows (snd (release_reservation db pid q)))"
proof (cases "find_stock_by_product_id db pid")
  case (Inl e)
  with inv show ?thesis by (simp add: release_reservation_def)
next
  case (Inr stocks)
  then have "list_all lot_invariant stocks"
    by (auto dest: find_stock_by_product_id_Inr)
  then have "list_all lot_invariant (stock_rows (snd (release_loop db
      (filter (\<lambda>s. reserved_quantity s > 0) stocks) q [])))"
    unfolding release_loop_walk using inv
    by (intro walk_loop_invariant)
      (auto simp: list_all_iff dest: Stock_release_reservation_invariant)
  with Inr show ?thesis by (simp add: release_reservation_def)
qed

lemma adjust_stock_fails:
  "\<exists>e. adjust_stock now db pid new_quantity cause user_id = (Inl e, db)"
  by (simp add: adjust_stock_def Let_def new_StockMovement_def)

subsection \<open>The greedy walk over the lots\<close>

lemma update_first_distinct:
  assumes "distinct (map stock_id rows)" "s \<in> set rows" "stock_id s = Some i"
  shows "update_first i s' rows = Some (map (\<lambda>r. if r = s then s' else r) rows)"
  using assms
proof (induction rows)
  case Nil
  then show ?case by simp
next
  case (Cons r rs)
  show ?case
  proof (cases "stock_id r = Some i")
    case True
    with Cons.prems have "r = s" by (auto simp: image_iff)
    moreover from this Cons.prems have "s \<notin> set rs" by (force simp: image_iff)
    then have "map (\<lambda>r. if r = s then s' else r) rs = rs"
      by (induction rs) auto
    ultimately show ?thesis using True by simp
  next
    case False
    with Cons.prems have "r \<noteq> s" "s \<in> set rs" by auto
    with Cons False show ?thesis by simp
  qed
qed

lemma greedy_taken_notin: "lot \<notin> set ss \<Longrightarrow> greedy_taken r ss lot = 0"
  by (induction ss arbitrary: r) auto

lemma greedy_taken_zero:
  "\<forall>s\<in>set ss. 0 < available_quantity s \<Longrightarrow> greedy_taken 0 ss lot = 0"
  by (induction ss) auto

lemma greedy_taken_bounds:
  "\<forall>s\<in>set ss. 0 < available_quantity s \<Longrightarrow> 0 \<le> r \<Longrightarrow>
   0 \<le> greedy_taken r ss lot \<and> greedy_taken r ss lot \<le> r \<and>
   (lot \<in> set ss \<longrightarrow> greedy_taken r ss lot \<le> available_quantity lot)"
proof (induction ss arbitrary: r)
  case Nil
  then show ?case by simp
next
  case (Cons a ss)
  define t where "t = min r (available_quantity a)"
  from Cons.prems have t: "0 \<le> t" "t \<le> r" "t \<le> available_quantity a"
    by (auto simp: t_def)
  from Cons.prems t have "0 \<le> greedy_taken (r - t) ss lot \<and> greedy_taken (r - t) ss lot \<le> r - t \<and>
   (lot \<in> set ss \<longrightarrow> greedy_taken (r - t) ss lot \<le> available_quantity lot)"
    by (intro Cons.IH) auto
  with t show ?case
    by (auto simp: t_def [symmetric])
qed

lemma walk_loop_greedy:
  assumes mutate: "\<And>s t. 0 < t \<Longrightarrow> t \<le> available_quantity s \<Longrightarrow>
      mutate s t = Inr (f s t) \<and> stock_id (f s t) = stock_id s"
  shows "distinct (map stock_id (stock_rows db)) \<Longrightarrow> set stocks \<subseteq> set (stock_rows db) \<Longrightarrow>
    distinct stocks \<Longrightarrow> \<forall>s\<in>set stocks. 0 < available_quantity s \<and> stock_id s \<noteq> None \<Longrightarrow>
    0 \<le> r \<Longrightarrow>
    walk_loop available_quantity mutate db stocks r aff =
      (Inr (aff @ map (\<lambda>s. f s (greedy_taken r stocks s))
               (filter (\<lambda>s. 0 < greedy_taken r stocks s) stocks)),
       db\<lparr>stock_rows :=
            map (\<lambda>x. if 0 < greedy_taken r stocks x then f x (greedy_taken r stocks x) else x)
              (stock_rows db)\<rparr>)"
proof (induction stocks arbitrary: db r aff)
  case Nil
  then show ?case by simp
next
  case (Cons s stocks)
  show ?case
  proof (cases "r = 0")
    case True
    from Cons.prems(4) have "\<forall>x\<in>set (s # stocks). 0 < available_quantity x" by simp
    then have "greedy_taken 0 (s # stocks) x = 0" for x
      by (rule greedy_taken_zero)
    with True show ?thesis by simp
  next
    case False
    with Cons.prems have r: "0 < r" by simp
    define t where "t = min r (available_quantity s)"
    from r Cons.prems(4) have t: "0 < t" "t \<le> available_quantity s" "t \<le> r"
      by (auto simp: t_def)
    obtain i where i: "stock_id s = Some i"
      using Cons.prems(4) by auto
    from mutate [OF t(1,2)] have m: "mutate s t = Inr (f s t)" and fid: "stock_id (f s t) = Some i"
      by (simp_all add: i)
    from Cons.prems have s_in: "s \<in> set (stock_rows db)" by simp
    define rows1 where "rows1 = map (\<lambda>x. if x = s then f s t else x) (stock_rows db)"
    have upd: "update_stock db (f s t) = (Inr (f s t), db\<lparr>stock_rows := rows1\<rparr>)"
      using update_first_distinct [OF Cons.prems(1) s_in i, of "f s t"] fid
      by (simp add: update_stock_def save_stock_def rows1_def)
    have ids1: "map stock_id rows1 = map stock_id (stock_rows db)"
      by (auto simp: rows1_def fid i)
    have rest_ne: "x \<noteq> s" if "x \<in> set stocks" for x
      using that Cons.prems(3) by auto
    have rest_in: "set stocks \<subseteq> set rows1"
    proof
      fix x assume x: "x \<in> set stocks"
      with Cons.prems(2) have "x \<in> set (stock_rows db)" by auto
      with rest_ne [OF x] show "x \<in> set rows1" by (auto simp: rows1_def image_iff)
    qed
    have new_notin: "f s t \<notin> set stocks"
    proof
      assume a: "f s t \<in> set stocks"
      with Cons.prems(2) have "f s t \<in> set (stock_rows db)" by auto
      moreover have "stock_id (f s t) = stock_id s" by (simp add: fid i)
      ultimately have "f s t = s"
        using Cons.prems(1) s_in by (auto simp: distinct_map dest: inj_onD)
      with a rest_ne show False by auto
    qed
    have IH: "walk_loop available_quantity mutate (db\<lparr>stock_rows := rows1\<rparr>) stocks (r - t)
        (aff @ [f s t]) =
      (Inr ((aff @ [f s t]) @ map (\<lambda>s. f s (greedy_taken (r - t) stocks s))
               (filter (\<lambda>s. 0 < greedy_taken (r - t) stocks s) stocks)),
       db\<lparr>stock_rows :=
            map (\<lambda>x. if 0 < greedy_taken (r - t) stocks x
                      then f x (greedy_taken (r - t) stocks x) else x) rows1\<rparr>)"
      using Cons.IH [of "db\<lparr>stock_rows := rows1\<rparr>" "r - t" "aff @ [f s t]"]
        Cons.prems ids1 rest_in t by simp
    have rows: "map (\<lambda>x. if 0 < greedy_taken (r - t) stocks x
                      then f x (greedy_taken (r - t) stocks x) else x) rows1 =
        map (\<lambda>x. if 0 < greedy_taken r (s # stocks) x
                  then f x (greedy_taken r (s # stocks) x) else x) (stock_rows db)"
      using t(1) greedy_taken_notin [OF new_notin]
      by (auto simp: rows1_def t_def)
    have touched: "map (\<lambda>s. f s (greedy_taken (r - t) stocks s))
               (filter (\<lambda>s. 0 < greedy_taken (r - t) stocks s) stocks) =
        map (\<lambda>x. f x (greedy_taken r (s # stocks) x))
               (filter (\<lambda>x. 0 < greedy_taken r (s # stocks) x) stocks)"
      using rest_ne by (intro arg_cong2 [where f = map] ext filter_cong map_cong)
        (auto simp: t_def intro!: map_cong filter_cong)
    show ?thesis
      using r m upd IH rows touched t(1)
      by (simp add: t_def [symmetric])
  qed
qed


lemma stock_models_to_domain_ok:
  "list_all lot_invariant rs \<Longrightarrow> list_all (\<lambda>r. 0 < product_id r) rs \<Longrightarrow>
   stock_models_to_domain rs = Inr rs"
  by (induction rs) (auto simp: Stock_post_init_def lot_invariant_def)

lemma find_stock_by_product_id_ok:
  "list_all lot_invariant (stock_rows db) \<Longrightarrow> 0 < pid \<Longrightarrow>
   find_stock_by_product_id db pid = Inr (filter (\<lambda>r. product_id r = pid) (stock_rows db))"
  unfolding find_stock_by_product_id_def
  by (rule stock_models_to_domain_ok) (auto simp: list_all_iff)

lemma fifo_order_set:
  "set (fifo_order db pid) =
     {r \<in> set (stock_rows db). product_id r = pid \<and> 0 < available_quantity r}"
  by (auto simp: fifo_order_def)

lemma distinct_rows: "primary_key_ok rows \<Longrightarrow> distinct rows"
  by (simp add: primary_key_ok_def distinct_map)

lemma fifo_order_distinct: "primary_key_ok (stock_rows db) \<Longrightarrow> distinct (fifo_order db pid)"
  by (auto simp: fifo_order_def dest: distinct_rows)

lemma fifo_order_sorted: "sorted (map expiration_key (fifo_order db pid))"
  by (simp add: fifo_order_def)

lemma greedy_taken_sum:
  "distinct ss \<Longrightarrow> \<forall>s\<in>set ss. 0 < available_quantity s \<Longrightarrow> 0 \<le> r \<Longrightarrow>
   sum_list (map (greedy_taken r ss) ss) = min r (sum_list (map available_quantity ss))"
proof (induction ss arbitrary: r)
  case Nil
  then show ?case by simp
next
  case (Cons a ss)
  define t where "t = min r (available_quantity a)"
  from Cons.prems have t: "0 \<le> t" "t \<le> r" by (auto simp: t_def)
  from Cons.prems have eq: "map (greedy_taken r (a # ss)) ss = map (greedy_taken (r - t) ss) ss"
    by (auto simp: t_def)
  from Cons.prems t
  have IH: "sum_list (map (greedy_taken (r - t) ss) ss) =
      min (r - t) (sum_list (map available_quantity ss))"
    by (intro Cons.IH) auto
  from Cons.prems have nonneg: "0 \<le> sum_list (map available_quantity ss)"
    by (intro sum_list_nonneg) auto
  have "sum_list (map (greedy_taken r (a # ss)) (a # ss)) =
      greedy_taken r (a # ss) a + sum_list (map (greedy_taken r (a # ss)) ss)"
    by (simp only: list.map sum_list.Cons)
  also have "\<dots> = t + min (r - t) (sum_list (map available_quantity ss))"
    by (simp only: eq IH) (simp add: t_def)
  also have "\<dots> = min r (sum_list (map available_quantity (a # ss)))"
    using nonneg by (auto simp: t_def min_def)
  finally show ?case .
qed

lemma sum_list_support:
  fixes f :: "'a \<Rightarrow> int"
  assumes "distinct xs" "distinct ys" "set ys \<subseteq> set xs" "\<And>x. x \<in> set xs \<Longrightarrow> x \<notin> set ys \<Longrightarrow> f x = 0"
  shows "sum_list (map f xs) = sum_list (map f ys)"
proof -
  have "sum f (set ys) = sum f (set xs)"
    using assms by (intro sum.mono_neutral_left) auto
  with assms(1,2) show ?thesis
    by (simp add: sum_list_distinct_conv_sum_set)
qed


lemma fifo_order_walkable:
  assumes "primary_key_ok (stock_rows db)"
  shows "distinct (map stock_id (stock_rows db))"
    and "set (fifo_order db pid) \<subseteq> set (stock_rows db)"
    and "distinct (fifo_order db pid)"
    and "\<forall>s\<in>set (fifo_order db pid). 0 < available_quantity s \<and> stock_id s \<noteq> None"
  using assms fifo_order_distinct [OF assms, of pid]
  by (auto simp: fifo_order_set primary_key_ok_def list_all_iff)

lemma remove_loop_run:
  assumes pk: "primary_key_ok (stock_rows db)" and q: "0 \<le> q"
  shows "remove_loop now db (fifo_order db pid) q [] =
    (Inr (map (\<lambda>s. consume_lot now s (greedy_taken q (fifo_order db pid) s))
            (filter (\<lambda>s. 0 < greedy_taken q (fifo_order db pid) s) (fifo_order db pid))),
     db\<lparr>stock_rows :=
          map (\<lambda>r. consume_lot now r (greedy_taken q (fifo_order db pid) r)) (stock_rows db)\<rparr>)"
proof -
  define f :: "Stock \<Rightarrow> int \<Rightarrow> Stock"
    where "f = (\<lambda>s t. s\<lparr>current_quantity := current_quantity s - t, last_updated := Some now\<rparr>)"
  have "walk_loop available_quantity (Stock_remove_stock now) db (fifo_order db pid) q [] =
      (Inr ([] @ map (\<lambda>s. f s (greedy_taken q (fifo_order db pid) s))
               (filter (\<lambda>s. 0 < greedy_taken q (fifo_order db pid) s) (fifo_order db pid))),
       db\<lparr>stock_rows :=
            map (\<lambda>x. if 0 < greedy_taken q (fifo_order db pid) x
                      then f x (greedy_taken q (fifo_order db pid) x) else x)
              (stock_rows db)\<rparr>)"
    using fifo_order_walkable [OF pk] q
    by (intro walk_loop_greedy) (auto simp: Stock_remove_stock_def f_def)
  moreover have "map (\<lambda>s. f s (greedy_taken q (fifo_order db pid) s))
               (filter (\<lambda>s. 0 < greedy_taken q (fifo_order db pid) s) (fifo_order db pid)) =
      map (\<lambda>s. consume_lot now s (greedy_taken q (fifo_order db pid) s))
            (filter (\<lambda>s. 0 < greedy_taken q (fifo_order db pid) s) (fifo_order db pid))"
    by (rule map_cong) (auto simp: consume_lot_def f_def)
  moreover have "(\<lambda>x. if 0 < greedy_taken q (fifo_order db pid) x
                      then f x (greedy_taken q (fifo_order db pid) x) else x) =
      (\<lambda>r. consume_lot now r (greedy_taken q (fifo_order db pid) r))"
    by (auto simp: consume_lot_def f_def)
  ultimately show ?thesis
    by (simp add: remove_loop_walk)
qed

lemma new_StockMovement_outbound:
  assumes "0 < pid" "0 < q"
  shows "new_StockMovement i pid mty (- q) (Given rid) (Given rty) n cat cby =
    Inr \<lparr>movement_id = i, movement_product_id = pid, movement_type = mty,
         quantity = (if mty \<in> set [PURCHASE, RETURN] then q else - q),
         reference_id = rid, reference_type = rty, movement_notes = n, created_at = cat,
         created_by = cby\<rparr>"
  using assms by (cases mty) (simp_all add: new_StockMovement_def StockMovement_post_init_def)

lemma remove_stock_run:
  assumes prod: "products db pid = Some p" and pid: "0 < pid"
    and pk: "primary_key_ok (stock_rows db)"
    and inv: "list_all lot_invariant (stock_rows db)"
    and q: "0 < q" "q \<le> get_available_stock_by_product db pid"
  shows "remove_stock now db pid q rid rty n mty =
    (Inl (StatementError ''movement_type is not among the defined enum values''),
     db\<lparr>stock_rows :=
          map (\<lambda>r. consume_lot now r (greedy_taken q (fifo_order db pid) r)) (stock_rows db)\<rparr>)"
proof -
  from q(1) have "0 \<le> q" by simp
  note loop = remove_loop_run [OF pk this, of now pid]
  have "remove_stock now db pid q rid rty n mty =
    (case remove_loop now db (fifo_order db pid) q [] of
       (Inl e, db') \<Rightarrow> (Inl e, db')
     | (Inr affected_stocks, db') \<Rightarrow>
         (case new_StockMovement None pid mty (- q) (Given rid) (Given rty) n (Some now) None of
            Inl e \<Rightarrow> (Inl e, db')
          | Inr movement \<Rightarrow>
              (case save_movement db' movement of
                 (Inl e, db'') \<Rightarrow> (Inl e, db'')
               | (Inr _, db'') \<Rightarrow> (Inr affected_stocks, db''))))"
    using product_find_by_id_Some [OF prod] q find_stock_by_product_id_ok [OF inv pid]
    by (simp add: remove_stock_def Let_def fifo_order_def)
  then show ?thesis
    by (simp add: loop new_StockMovement_outbound [OF pid q(1)] del: set_simps)
qed


lemma fifo_order_consumed_no_later:
  "sorted_wrt (\<lambda>a b. consumed_no_later (expiration_date a) (expiration_date b))
     (fifo_order db pid)"
proof -
  have "sorted_wrt (\<lambda>a b. expiration_key a \<le> expiration_key b) (fifo_order db pid)"
    using fifo_order_sorted [of db pid] by (simp add: sorted_map)
  then show ?thesis
    by (rule sorted_wrt_mono_rel [rotated])
      (simp add: consumed_no_later_def expiration_key_def split: option.splits)
qed

lemma fifo_order_no_expiration_last:
  assumes "list_all expires_before_max (stock_rows db)"
  shows "sorted_wrt (\<lambda>a b. expiration_date a = None \<longrightarrow> expiration_date b = None)
           (fifo_order db pid)"
proof (rule sorted_wrt_mono_rel [OF _ fifo_order_consumed_no_later])
  fix a b
  assume "b \<in> set (fifo_order db pid)"
    and ab: "consumed_no_later (expiration_date a) (expiration_date b)"
  with assms have "expires_before_max b"
    by (simp add: fifo_order_set list_all_iff)
  with ab show "expiration_date a = None \<longrightarrow> expiration_date b = None"
    by (auto simp: consumed_no_later_def expires_before_max_def split: option.splits)
qed

lemma remove_loop_nonpositive: "r \<le> 0 \<Longrightarrow> remove_loop now db stocks r aff = (Inr aff, db)"
  by (cases stocks) simp_all

lemma remove_stock_nonpositive:
  assumes "q \<le> 0"
  shows "stock_rows (snd (remove_stock now db pid q rid rty n mty)) = stock_rows db"
proof (cases "products db pid")
  case None
  then show ?thesis by (simp add: remove_stock_def product_find_by_id_def)
next
  case (Some model)
  with assms show ?thesis
    by (cases "find_stock_by_product_id db pid")
      (simp_all add: remove_stock_def Let_def remove_loop_nonpositive product_find_by_id_def
        split: sum.splits)
qed

subsection \<open>The example repositories\<close>

lemmas inventory_eval =
  fifo_inventory_def lot_march_def lot_june_def lot_no_expiration_def

lemma fifo_inventory_ok:
  "products fifo_inventory 1 = Some \<lparr>model_status = ACTIVE\<rparr>"
  "primary_key_ok (stock_rows fifo_inventory)"
  "list_all lot_invariant (stock_rows fifo_inventory)"
  "get_available_stock_by_product fifo_inventory 1 = 35"
  by (simp_all add: inventory_eval primary_key_ok_def lot_invariant_def available_quantity_def
      get_available_stock_by_product_def)

lemma fifo_inventory_order:
  "fifo_order fifo_inventory 1 = [lot_march, lot_june, lot_no_expiration]"
  by (simp add: inventory_eval fifo_order_def available_quantity_def expiration_key_def date_max_def)

lemmas inventory_run =
  remove_stock_def add_stock_def add_stock_lot_def reserve_stock_def release_reservation_def
  adjust_stock_def is_active_def product_find_by_id_def product_model_to_domain_def
  get_available_stock_by_product_def get_total_stock_by_product_def
  find_stock_by_product_id_def Stock_post_init_def available_quantity_def expiration_key_def
  date_max_def Stock_remove_stock_def Stock_add_stock_def Stock_reserve_stock_def
  Stock_release_reservation_def update_stock_def save_stock_def next_id_def
  new_StockMovement_def StockMovement_post_init_def save_movement_def Let_def

subsection \<open>The movement ledger\<close>

lemma new_StockMovement_zero:
  "\<exists>e. new_StockMovement i pid ty 0 rid rty n cat cby = Inl e"
  by (cases rid; cases rty) (simp_all add: new_StockMovement_def StockMovement_post_init_def)

lemma new_StockMovement_nonzero:
  "new_StockMovement i pid ty q rid rty n cat cby = Inr m \<Longrightarrow> quantity m \<noteq> 0"
  by (cases rid; cases rty)
    (auto simp: new_StockMovement_def StockMovement_post_init_def split: if_splits)

lemma remove_stock_movements [simp]:
  "movement_rows (snd (remove_stock now db pid q rid rty n mty)) = movement_rows db"
proof (cases "products db pid")
  case None
  then show ?thesis by (simp add: remove_stock_def product_find_by_id_def)
next
  case (Some model)
  note found = product_find_by_id_Some [OF Some]
  show ?thesis
  proof (cases "find_stock_by_product_id db pid")
    case (Inl e)
    with found show ?thesis by (simp add: remove_stock_def Let_def)
  next
    case (Inr stocks)
    obtain res db' where walked: "remove_loop now db
      (sort_key expiration_key (filter (\<lambda>s. available_quantity s > 0) stocks)) q [] = (res, db')"
      by (cases "remove_loop now db
      (sort_key expiration_key (filter (\<lambda>s. available_quantity s > 0) stocks)) q []")
    then have rows: "movement_rows db' = movement_rows db"
      using walk_loop_movement_rows [of available_quantity "Stock_remove_stock now" db
          "sort_key expiration_key (filter (\<lambda>s. available_quantity s > 0) stocks)" q "[]"]
      by (simp add: remove_loop_walk)
    show ?thesis
      using found Inr walked rows
      by (auto simp: remove_stock_def Let_def split: sum.splits)
  qed
qed

lemma adjust_stock_movements [simp]:
  "movement_rows (snd (adjust_stock now db pid new_quantity cause user_id)) = movement_rows db"
  using adjust_stock_fails [of now db pid new_quantity cause user_id] by auto

lemma reserve_stock_movements [simp]:
  "movement_rows (snd (reserve_stock db pid q)) = movement_rows db"
  by (simp add: reserve_stock_def Let_def reserve_loop_walk split: sum.splits)

lemma release_reservation_movements [simp]:
  "movement_rows (snd (release_reservation db pid q)) = movement_rows db"
  by (simp add: release_reservation_def release_loop_walk split: sum.splits)

subsection \<open>Totals after a consume and after a reserve\<close>

lemma product_rows_distinct:
  "primary_key_ok (stock_rows db) \<Longrightarrow> distinct (filter (\<lambda>r. product_id r = pid) (stock_rows db))"
  by (simp add: distinct_rows)

lemma fifo_order_available:
  assumes pk: "primary_key_ok (stock_rows db)" and inv: "list_all lot_invariant (stock_rows db)"
  shows "sum_list (map available_quantity (fifo_order db pid)) =
         get_available_stock_by_product db pid"
proof -
  have "sum_list (map available_quantity (filter (\<lambda>r. product_id r = pid) (stock_rows db))) =
        sum_list (map available_quantity (fifo_order db pid))"
    using product_rows_distinct [OF pk] fifo_order_distinct [OF pk] inv
    by (intro sum_list_support)
      (auto simp: fifo_order_set list_all_iff lot_invariant_def)
  then show ?thesis
    by (simp add: get_available_stock_by_product_def available_quantity_def [abs_def])
qed

lemma greedy_taken_total:
  assumes pk: "primary_key_ok (stock_rows db)" and inv: "list_all lot_invariant (stock_rows db)"
    and q: "0 \<le> q" "q \<le> get_available_stock_by_product db pid"
  shows "sum_list (map (greedy_taken q (fifo_order db pid))
           (filter (\<lambda>r. product_id r = pid) (stock_rows db))) = q"
proof -
  have "sum_list (map (greedy_taken q (fifo_order db pid))
           (filter (\<lambda>r. product_id r = pid) (stock_rows db))) =
        sum_list (map (greedy_taken q (fifo_order db pid)) (fifo_order db pid))"
    using product_rows_distinct [OF pk] fifo_order_distinct [OF pk]
    by (intro sum_list_support) (auto simp: fifo_order_set greedy_taken_notin)
  also have "\<dots> = min q (sum_list (map available_quantity (fifo_order db pid)))"
    using fifo_order_distinct [OF pk] q(1)
    by (intro greedy_taken_sum) (auto simp: fifo_order_set)
  also have "\<dots> = q"
    using q(2) by (simp add: fifo_order_available [OF pk inv])
  finally show ?thesis .
qed

lemma fifo_order_taken_nonneg:
  "0 \<le> q \<Longrightarrow> 0 \<le> greedy_taken q (fifo_order db pid) r"
  using greedy_taken_bounds [of "fifo_order db pid" q r]
  by (auto simp: fifo_order_set)

lemma consume_lot_fields [simp]:
  "product_id (consume_lot now r t) = product_id r"
  "reserved_quantity (consume_lot now r t) = reserved_quantity r"
  "0 \<le> t \<Longrightarrow> current_quantity (consume_lot now r t) = current_quantity r - t"
  by (simp_all add: consume_lot_def)

lemma reserve_lot_fields [simp]:
  "product_id (reserve_lot r t) = product_id r"
  "current_quantity (reserve_lot r t) = current_quantity r"
  "0 \<le> t \<Longrightarrow> reserved_quantity (reserve_lot r t) = reserved_quantity r + t"
  by (simp_all add: reserve_lot_def)

lemma remove_stock_totals:
  assumes prod: "products db pid = Some p" and pid: "0 < pid"
    and pk: "primary_key_ok (stock_rows db)"
    and inv: "list_all lot_invariant (stock_rows db)"
    and q: "0 < q" "q \<le> get_available_stock_by_product db pid"
  shows "get_total_stock_by_product (snd (remove_stock now db pid q rid rty n mty)) pid =
           get_total_stock_by_product db pid - q"
    and "get_available_stock_by_product (snd (remove_stock now db pid q rid rty n mty)) pid =
           get_available_stock_by_product db pid - q"
proof -
  from q(1) have q0: "0 \<le> q" by simp
  note run = remove_stock_run [OF prod pid pk inv q, of now rid rty n mty]
  note total = greedy_taken_total [OF pk inv q0 q(2)]
  have nonneg: "\<And>x. 0 \<le> greedy_taken q (fifo_order db pid) x"
    using q0 by (rule fifo_order_taken_nonneg)
  show "get_total_stock_by_product (snd (remove_stock now db pid q rid rty n mty)) pid =
           get_total_stock_by_product db pid - q"
    using total
    by (simp add: run get_total_stock_by_product_def filter_map comp_def nonneg
        sum_list_subtractf)
  show "get_available_stock_by_product (snd (remove_stock now db pid q rid rty n mty)) pid =
           get_available_stock_by_product db pid - q"
    using total
    by (simp add: run get_available_stock_by_product_def filter_map comp_def nonneg
        sum_list_subtractf)
qed


lemma reserve_stock_run:
  assumes pid: "0 < pid"
    and pk: "primary_key_ok (stock_rows db)"
    and inv: "list_all lot_invariant (stock_rows db)"
    and q: "0 \<le> q" "q \<le> get_available_stock_by_product db pid"
  shows "reserve_stock db pid q =
    (Inr (map (\<lambda>s. reserve_lot s (greedy_taken q (fifo_order db pid) s))
            (filter (\<lambda>s. 0 < greedy_taken q (fifo_order db pid) s) (fifo_order db pid))),
     db\<lparr>stock_rows :=
          map (\<lambda>r. reserve_lot r (greedy_taken q (fifo_order db pid) r)) (stock_rows db)\<rparr>)"
proof -
  define f :: "Stock \<Rightarrow> int \<Rightarrow> Stock"
    where "f = (\<lambda>s t. s\<lparr>reserved_quantity := reserved_quantity s + t\<rparr>)"
  have "walk_loop available_quantity Stock_reserve_stock db (fifo_order db pid) q [] =
      (Inr ([] @ map (\<lambda>s. f s (greedy_taken q (fifo_order db pid) s))
               (filter (\<lambda>s. 0 < greedy_taken q (fifo_order db pid) s) (fifo_order db pid))),
       db\<lparr>stock_rows :=
            map (\<lambda>x. if 0 < greedy_taken q (fifo_order db pid) x
                      then f x (greedy_taken q (fifo_order db pid) x) else x)
              (stock_rows db)\<rparr>)"
    using fifo_order_walkable [OF pk] q(1)
    by (intro walk_loop_greedy) (auto simp: Stock_reserve_stock_def f_def)
  moreover have "map (\<lambda>s. f s (greedy_taken q (fifo_order db pid) s))
               (filter (\<lambda>s. 0 < greedy_taken q (fifo_order db pid) s) (fifo_order db pid)) =
      map (\<lambda>s. reserve_lot s (greedy_taken q (fifo_order db pid) s))
            (filter (\<lambda>s. 0 < greedy_taken q (fifo_order db pid) s) (fifo_order db pid))"
    by (rule map_cong) (auto simp: reserve_lot_def f_def)
  moreover have "(\<lambda>x. if 0 < greedy_taken q (fifo_order db pid) x
                      then f x (greedy_taken q (fifo_order db pid) x) else x) =
      (\<lambda>r. reserve_lot r (greedy_taken q (fifo_order db pid) r))"
    by (auto simp: reserve_lot_def f_def)
  moreover have "reserve_stock db pid q = reserve_loop db (fifo_order db pid) q []"
    using q(2) find_stock_by_product_id_ok [OF inv pid]
    by (simp add: reserve_stock_def Let_def fifo_order_def)
  ultimately show ?thesis
    by (simp add: reserve_loop_walk)
qed

lemma reserve_stock_totals:
  assumes pid: "0 < pid"
    and pk: "primary_key_ok (stock_rows db)"
    and inv: "list_all lot_invariant (stock_rows db)"
    and q: "0 \<le> q" "q \<le> get_available_stock_by_product db pid"
  shows "get_total_stock_by_product (snd (reserve_stock db pid q)) pid =
           get_total_stock_by_product db pid"
    and "get_available_stock_by_product (snd (reserve_stock db pid q)) pid =
           get_available_stock_by_product db pid - q"
proof -
  note run = reserve_stock_run [OF pid pk inv q]
  note total = greedy_taken_total [OF pk inv q]
  have nonneg: "\<And>x. 0 \<le> greedy_taken q (fifo_order db pid) x"
    using q(1) by (rule fifo_order_taken_nonneg)
  show "get_total_stock_by_product (snd (reserve_stock db pid q)) pid =
           get_total_stock_by_product db pid"
    by (simp add: run get_total_stock_by_product_def filter_map comp_def)
  show "get_available_stock_by_product (snd (reserve_stock db pid q)) pid =
           get_available_stock_by_product db pid - q"
    using total
    by (simp add: run get_available_stock_by_product_def filter_map comp_def nonneg
        sum_list_subtractf sum_list_addf)
qed

lemma remove_stock_insufficient:
  "products db pid = Some p \<Longrightarrow> get_available_stock_by_product db pid < q \<Longrightarrow>
   remove_stock now db pid q rid rty n mty =
     (Inl (Insufficient_stock (get_available_stock_by_product db pid) q), db)"
  by (simp add: remove_stock_def Let_def product_find_by_id_def)

lemma reserve_stock_insufficient:
  "get_available_stock_by_product db pid < q \<Longrightarrow>
   reserve_stock db pid q =
     (Inl (Insufficient_stock_to_reserve (get_available_stock_by_product db pid) q), db)"
  by (simp add: reserve_stock_def Let_def)

text \<open>
  Claim C2. Each of the five operations of the inventory service (receive \<open>add_stock\<close>,
  consume \<open>remove_stock\<close>, \<open>reserve_stock\<close>, \<open>release_reservation\<close>, \<open>adjust_stock\<close>),
  run with any arguments on a repository whose lots all satisfy the lot invariant, leaves
  a repository whose lots all satisfy it: \<open>current_quantity \<ge> 0\<close>,
  \<open>0 \<le> reserved_quantity \<le> current_quantity\<close>,
  \<open>available_quantity = current_quantity - reserved_quantity \<ge> 0\<close>. This covers the
  runs that end in an exception, whose earlier writes stay.
\<close>

theorem stock_invariant_preserved:
  assumes "list_all lot_invariant (stock_rows db)"
  shows "list_all lot_invariant
           (stock_rows (snd (add_stock now db pid q exp batch loc rid rty n))) \<and>
         list_all lot_invariant
           (stock_rows (snd (remove_stock now' db pid' q' rid' rty' n' mty))) \<and>
         list_all lot_invariant (stock_rows (snd (reserve_stock db pid2 q2))) \<and>
         list_all lot_invariant (stock_rows (snd (release_reservation db pid3 q3))) \<and>
         list_all lot_invariant
           (stock_rows (snd (adjust_stock now4 db pid4 new_quantity cause user_id)))"
proof -
  obtain e where "adjust_stock now4 db pid4 new_quantity cause user_id = (Inl e, db)"
    using adjust_stock_fails by blast
  with assms show ?thesis
    by (simp add: add_stock_invariant remove_stock_invariant reserve_stock_invariant
        release_reservation_invariant)
qed

theorem stock_invariant_preserved_witness:
  "list_all lot_invariant (stock_rows fifo_inventory) \<and>
   list_all lot_invariant
     (stock_rows (snd (add_stock 0 fifo_inventory 1 4 None None None None None None))) \<and>
   list_all lot_invariant
     (stock_rows (snd (remove_stock 0 fifo_inventory 1 8 None None None SALE))) \<and>
   list_all lot_invariant (stock_rows (snd (reserve_stock fifo_inventory 1 8))) \<and>
   list_all lot_invariant (stock_rows (snd (release_reservation fifo_inventory 1 8))) \<and>
   list_all lot_invariant (stock_rows (snd (adjust_stock 0 fifo_inventory 1 8 ''recount'' None)))"
proof -
  have h: "list_all lot_invariant (stock_rows fifo_inventory)"
    by (simp add: inventory_eval lot_invariant_def available_quantity_def)
  show ?thesis
    using h stock_invariant_preserved [OF h] by simp
qed

text \<open>
  Claim C3, as amended. A consume (\<open>remove_stock\<close>) of an existing product whose
  requested quantity does not exceed the product's total available quantity walks the
  lots of the product that have \<open>available_quantity > 0\<close>, in ascending order of
  \<open>expiration_date or date.max\<close>: a lot without expiration date counts as expiring on
  9999-12-31, so it comes after every lot that expires earlier, and lots with the same key
  (a lot without date and a lot expiring on 9999-12-31 among them) keep the order in which
  the repository returns them. When no lot expires on 9999-12-31, the lots without
  expiration date are the last ones. A positive request takes
  \<open>min(remaining, lot.available)\<close> from each lot in that order: the rows the call
  leaves behind are the old rows with what the greedy walk takes removed from
  \<open>current_quantity\<close>. A request that is not positive touches no lot. The repository
  is one whose lots satisfy the lot invariant and have distinct ids, with positive product
  ids.
\<close>

theorem remove_stock_fifo_greedy:
  assumes "products db pid = Some p" and "0 < pid"
    and "primary_key_ok (stock_rows db)"
    and "list_all lot_invariant (stock_rows db)"
    and "q \<le> get_available_stock_by_product db pid"
  shows "sorted_wrt (\<lambda>a b. consumed_no_later (expiration_date a) (expiration_date b))
           (fifo_order db pid) \<and>
         filter (\<lambda>s. expiration_key s = k) (fifo_order db pid) =
           filter (\<lambda>s. expiration_key s = k)
             (filter (\<lambda>s. 0 < available_quantity s)
                (filter (\<lambda>r. product_id r = pid) (stock_rows db))) \<and>
         (list_all expires_before_max (stock_rows db) \<longrightarrow>
            sorted_wrt (\<lambda>a b. expiration_date a = None \<longrightarrow> expiration_date b = None)
              (fifo_order db pid)) \<and>
         set (fifo_order db pid) =
           {r \<in> set (stock_rows db). product_id r = pid \<and> 0 < available_quantity r} \<and>
         (0 < q \<longrightarrow>
            stock_rows (snd (remove_stock now db pid q rid rty n mty)) =
              map (\<lambda>r. consume_lot now r (greedy_taken q (fifo_order db pid) r))
                (stock_rows db)) \<and>
         (q \<le> 0 \<longrightarrow> stock_rows (snd (remove_stock now db pid q rid rty n mty)) = stock_rows db)"
proof (intro conjI impI)
  show "sorted_wrt (\<lambda>a b. consumed_no_later (expiration_date a) (expiration_date b))
           (fifo_order db pid)"
    by (rule fifo_order_consumed_no_later)
  show "set (fifo_order db pid) =
           {r \<in> set (stock_rows db). product_id r = pid \<and> 0 < available_quantity r}"
    by (rule fifo_order_set)
  show "filter (\<lambda>s. expiration_key s = k) (fifo_order db pid) =
           filter (\<lambda>s. expiration_key s = k)
             (filter (\<lambda>s. 0 < available_quantity s)
                (filter (\<lambda>r. product_id r = pid) (stock_rows db)))"
    unfolding fifo_order_def by (rule sort_key_stable)
next
  assume "list_all expires_before_max (stock_rows db)"
  then show "sorted_wrt (\<lambda>a b. expiration_date a = None \<longrightarrow> expiration_date b = None)
              (fifo_order db pid)"
    by (rule fifo_order_no_expiration_last)
next
  assume q: "0 < q"
  note run = remove_stock_run [OF assms(1-4) q assms(5), of now rid rty n mty]
  show "stock_rows (snd (remove_stock now db pid q rid rty n mty)) =
              map (\<lambda>r. consume_lot now r (greedy_taken q (fifo_order db pid) r))
                (stock_rows db)"
    by (simp only: run snd_conv) simp
next
  assume "q \<le> 0"
  then show "stock_rows (snd (remove_stock now db pid q rid rty n mty)) = stock_rows db"
    by (rule remove_stock_nonpositive)
qed

theorem remove_stock_fifo_greedy_witness:
  "products fifo_inventory 1 = Some \<lparr>model_status = ACTIVE\<rparr> \<and> (0::int) < 1 \<and>
   primary_key_ok (stock_rows fifo_inventory) \<and>
   list_all lot_invariant (stock_rows fifo_inventory) \<and>
   list_all expires_before_max (stock_rows fifo_inventory) \<and>
   8 \<le> get_available_stock_by_product fifo_inventory 1 \<and>
   fifo_order fifo_inventory 1 = [lot_march, lot_june, lot_no_expiration] \<and>
   stock_rows (snd (remove_stock 77 fifo_inventory 1 8 None None None SALE)) =
     [lot_no_expiration,
      lot_june\<lparr>current_quantity := 7, last_updated := Some 77\<rparr>,
      lot_march\<lparr>current_quantity := 0, last_updated := Some 77\<rparr>]"
proof -
  have q: "8 \<le> get_available_stock_by_product fifo_inventory 1"
    by (simp add: fifo_inventory_ok)
  have rows: "stock_rows fifo_inventory = [lot_no_expiration, lot_june, lot_march]"
    by (simp add: fifo_inventory_def)
  have ne: "lot_march \<noteq> lot_june" "lot_march \<noteq> lot_no_expiration" "lot_june \<noteq> lot_no_expiration"
    by (simp_all add: inventory_eval)
  have av: "available_quantity lot_march = 5" "available_quantity lot_june = 10"
    "available_quantity lot_no_expiration = 20"
    by (simp_all add: inventory_eval available_quantity_def)
  have cq: "current_quantity lot_march = 5" "current_quantity lot_june = 10"
    by (simp_all add: inventory_eval)
  from remove_stock_fifo_greedy [OF fifo_inventory_ok(1) _ fifo_inventory_ok(2,3) q,
      where now = 77 and rid = None and rty = None and n = None and mty = SALE]
  have "stock_rows (snd (remove_stock 77 fifo_inventory 1 8 None None None SALE)) =
     map (\<lambda>r. consume_lot 77 r (greedy_taken 8 (fifo_order fifo_inventory 1) r))
       (stock_rows fifo_inventory)"
    by simp
  then have "stock_rows (snd (remove_stock 77 fifo_inventory 1 8 None None None SALE)) =
     [lot_no_expiration,
      lot_june\<lparr>current_quantity := 7, last_updated := Some 77\<rparr>,
      lot_march\<lparr>current_quantity := 0, last_updated := Some 77\<rparr>]"
    using ne ne [symmetric]
    by (simp add: fifo_inventory_order rows consume_lot_def av cq)
  moreover have "list_all expires_before_max (stock_rows fifo_inventory)"
    by (simp add: inventory_eval expires_before_max_def date_max_def)
  ultimately show ?thesis
    using fifo_inventory_ok(1-3) q fifo_inventory_order by simp
qed

theorem undated_lot_first_counterexample:
  "3 \<le> get_available_stock_by_product tie_inventory 1 \<and>
   map (\<lambda>r. (expiration_date r, available_quantity r)) (stock_rows tie_inventory) =
     [(None, 5), (Some 3652059, 5)] \<and>
   map (\<lambda>r. (expiration_date r, available_quantity r))
     (stock_rows (snd (remove_stock 0 tie_inventory 1 3 None None None SALE))) =
     [(None, 2), (Some 3652059, 5)]"
  by (simp add: tie_inventory_def lot_undated_def lot_last_day_def inventory_run)
text \<open>
  Claim C4 asks that a consume whose requested quantity does not exceed the total available
  quantity completes. \<open>remove_stock\<close> writes the lots and then hands its movement to
  \<open>save_movement\<close>, which raises for every movement: on the lots of the FIFO scenario
  (35 units available), a consume of 8 units ends in StatementError after it has lowered
  the June lot to 7 and the March lot to 0, and the ledger is still empty. The other parts
  of the claim hold: a request above the total fails with the insufficient-stock error and
  changes nothing (lemmas \<open>remove_stock_insufficient\<close>, \<open>reserve_stock_insufficient\<close>),
  and a reserve within the total completes and distributes the whole request (lemmas
  \<open>reserve_stock_run\<close>, \<open>reserve_stock_totals\<close>).
\<close>

theorem consume_raises_after_lot_writes:
  "get_available_stock_by_product fifo_inventory 1 = 35 \<and>
   map current_quantity (stock_rows fifo_inventory) = [20, 10, 5] \<and>
   fst (remove_stock 0 fifo_inventory 1 8 None None None SALE) =
     Inl (StatementError ''movement_type is not among the defined enum values'') \<and>
   map current_quantity
     (stock_rows (snd (remove_stock 0 fifo_inventory 1 8 None None None SALE))) = [20, 7, 0] \<and>
   movement_rows (snd (remove_stock 0 fifo_inventory 1 8 None None None SALE)) = []"
  by (simp add: inventory_eval inventory_run)
text \<open>
  Claim C9 asks for an error before any change when a release exceeds the total reserved
  quantity. \<open>release_reservation\<close> has no such check: on one lot of 10 units with 3
  reserved, releasing 5 returns normally and has set the lot's \<open>reserved_quantity\<close>
  from 3 to 0.
\<close>

theorem release_more_than_reserved:
  "fst (release_reservation reserved_inventory 1 5) =
     Inr [lot_reserved\<lparr>reserved_quantity := 0\<rparr>] \<and>
   map reserved_quantity (stock_rows (snd (release_reservation reserved_inventory 1 5))) = [0]"
  by (simp add: reserved_inventory_def lot_reserved_def release_reservation_def
      find_stock_by_product_id_def Stock_post_init_def Stock_release_reservation_def
      update_stock_def save_stock_def)

text \<open>
  Claim C10. Constructing a \<open>StockMovement\<close> with quantity 0 fails, for every movement
  type and every other argument, so every movement the constructor returns has a nonzero
  quantity; and no operation of the inventory service (receive, consume, adjust, reserve,
  release) appends a zero-quantity entry: when every movement of the ledger has a nonzero
  quantity before the operation, every movement has one after it.
\<close>

theorem no_zero_quantity_movement:
  "(\<exists>e. new_StockMovement i pid0 ty 0 rid0 rty0 n0 cat cby = Inl e) \<and>
   (new_StockMovement i1 pid1 ty1 q1 rid1 rty1 n1 cat1 cby1 = Inr m \<longrightarrow> movement_nonzero m) \<and>
   (list_all movement_nonzero (movement_rows db) \<longrightarrow>
      list_all movement_nonzero
        (movement_rows (snd (add_stock now db pid q exp batch loc rid rty n))) \<and>
      list_all movement_nonzero
        (movement_rows (snd (remove_stock now' db pid' q' rid' rty' n' mty))) \<and>
      list_all movement_nonzero
        (movement_rows (snd (adjust_stock now4 db pid4 new_quantity cause user_id))) \<and>
      list_all movement_nonzero (movement_rows (snd (reserve_stock db pid2 q2))) \<and>
      list_all movement_nonzero (movement_rows (snd (release_reservation db pid3 q3))))"
proof (intro conjI impI)
  show "\<exists>e. new_StockMovement i pid0 ty 0 rid0 rty0 n0 cat cby = Inl e"
    by (rule new_StockMovement_zero)
next
  assume "new_StockMovement i1 pid1 ty1 q1 rid1 rty1 n1 cat1 cby1 = Inr m"
  then show "movement_nonzero m"
    unfolding movement_nonzero_def by (rule new_StockMovement_nonzero)
qed simp_all

theorem no_zero_quantity_movement_witness:
  "list_all movement_nonzero (movement_rows ledger_inventory) \<and>
   movement_rows ledger_inventory = [purchase_entry] \<and>
   list_all movement_nonzero
     (movement_rows (snd (remove_stock 0 ledger_inventory 1 8 None None None SALE))) \<and>
   list_all movement_nonzero
     (movement_rows (snd (add_stock 0 ledger_inventory 1 4 None None None None None None))) \<and>
   new_StockMovement None 1 SALE (- 8) (Given None) (Given None) None (Some 0) None =
     Inr sale_entry \<and>
   movement_nonzero sale_entry"
proof -
  have h: "list_all movement_nonzero (movement_rows ledger_inventory)"
    by (simp add: ledger_inventory_def purchase_entry_def movement_nonzero_def)
  have c: "new_StockMovement None 1 SALE (- 8) (Given None) (Given None) None (Some 0) None =
     Inr sale_entry"
    by (simp add: new_StockMovement_def StockMovement_post_init_def sale_entry_def)
  have rows: "movement_rows ledger_inventory = [purchase_entry]"
    by (simp add: ledger_inventory_def)
  have built: "movement_nonzero sale_entry"
    by (rule no_zero_quantity_movement [THEN conjunct2, THEN conjunct1, THEN mp, OF c])
  have removed: "list_all movement_nonzero
     (movement_rows (snd (remove_stock 0 ledger_inventory 1 8 None None None SALE)))"
    by (rule no_zero_quantity_movement [THEN conjunct2, THEN conjunct2, THEN mp, OF h,
          THEN conjunct2, THEN conjunct1])
  have added: "list_all movement_nonzero
     (movement_rows (snd (add_stock 0 ledger_inventory 1 4 None None None None None None)))"
    by (rule no_zero_quantity_movement [THEN conjunct2, THEN conjunct2, THEN mp, OF h,
          THEN conjunct1])
  from h rows removed added c built show ?thesis
    by (intro conjI)
qed
section \<open>Properties of the appointments\<close>

subsection \<open>Datetime arithmetic\<close>

lemmas datetime_range =
  datetime_min_def datetime_max_def date_max_def time_max_def combine_def timedelta_minutes_def

lemma plus_minutes_in_range:
  assumes "datetime_min \<le> t" "t \<le> datetime_max"
    and "datetime_min \<le> t + timedelta_minutes n" "t + timedelta_minutes n \<le> datetime_max"
  shows "plus_minutes t n = Inr (t + timedelta_minutes n)"
  using assms by (simp add: plus_minutes_def datetime_range)

lemma plus_minutes_Inr: "plus_minutes t n = Inr x \<Longrightarrow> x = t + timedelta_minutes n"
  by (simp add: plus_minutes_def split: if_splits)

lemma Appointment_post_init_Inr:
  "Appointment_post_init a = Inr b \<Longrightarrow>
   b = a \<and> end_time a = Inr (appointment_end a) \<and> 0 < duration_minutes a"
  by (auto simp: Appointment_post_init_def end_time_def appointment_end_def
      split: sum.splits if_splits dest: plus_minutes_Inr)

lemmas clinic_eval =
  example_clinic_def booked_def clock_def combine_def timedelta_minutes_def end_time_def
  appointment_end_def plus_minutes_def datetime_min_def datetime_max_def date_max_def
  time_max_def
subsection \<open>The free slots of a day\<close>

lemma upt_nat_step:
  fixes x s :: int
  assumes "0 < s" "0 \<le> x"
  shows "[0 ..< nat (x div s + 1)] = 0 # map Suc [0 ..< nat ((x - s) div s + 1)]"
proof -
  from assms have "0 \<le> x div s" by (simp add: pos_imp_zdiv_nonneg_iff)
  moreover from assms have "(x - s) div s = x div s - 1"
    using div_add_self2 [of s "x - s"] by simp
  ultimately have "nat (x div s + 1) = Suc (nat ((x - s) div s + 1))" by simp
  then show ?thesis by (simp add: upt_conv_Cons map_Suc_upt del: upt_Suc)
qed

lemma is_available_free:
  "list_all (\<lambda>a. end_time a = Inr (appointment_end a)) ex \<Longrightarrow>
   is_available c se ex =
     Inr (\<not> list_ex (\<lambda>a. c < appointment_end a \<and> se > appointment_date a) ex)"
  by (induction ex) auto

lemma slots_loop_closed:
  "list_all (\<lambda>a. end_time a = Inr (appointment_end a)) ex \<Longrightarrow>
   e + timedelta_minutes 30 \<le> datetime_max \<Longrightarrow>
   e + timedelta_minutes 30 - timedelta_minutes dur \<le> datetime_max \<Longrightarrow>
   datetime_min \<le> c \<Longrightarrow> c \<le> datetime_max \<Longrightarrow>
   datetime_min \<le> c + timedelta_minutes dur \<Longrightarrow> c + timedelta_minutes dur \<le> datetime_max \<Longrightarrow>
   slots_loop ex e dur c =
     Inr (map (\<lambda>s. new_slot s (s + timedelta_minutes dur))
       (filter (\<lambda>s. \<not> list_ex (\<lambda>a. s < appointment_end a \<and>
                                      s + timedelta_minutes dur > appointment_date a) ex)
          (map (\<lambda>k. c + timedelta_minutes (30 * int k))
             [0 ..< nat ((e - c - timedelta_minutes dur) div timedelta_minutes 30 + 1)])))"
proof (induction ex e dur c rule: slots_loop.induct)
  case (1 ex e dur c)
  have slot_end: "plus_minutes c dur = Inr (c + timedelta_minutes dur)"
    using "1.prems"(4-7) by (rule plus_minutes_in_range)
  show ?case
  proof (cases "c + timedelta_minutes dur \<le> e")
    case False
    then have "(e - c - timedelta_minutes dur) div timedelta_minutes 30 < 0"
      by (simp add: timedelta_minutes_def div_neg_pos_less0)
    with False slot_end show ?thesis
      by (subst slots_loop.simps) simp
  next
    case True
    then have x: "0 \<le> e - c - timedelta_minutes dur" by simp
    have s: "0 < timedelta_minutes 30" by (simp add: timedelta_minutes_def)
    have shift: "e - (c + timedelta_minutes 30) - timedelta_minutes dur =
        e - c - timedelta_minutes dur - timedelta_minutes 30" by simp
    have next_start: "c + timedelta_minutes 30 + timedelta_minutes (30 * int k) =
        c + timedelta_minutes (30 * int (Suc k))" for k
      by (simp add: timedelta_minutes_def)
    have free: "is_available c (c + timedelta_minutes dur) ex =
        Inr (\<not> list_ex (\<lambda>a. c < appointment_end a \<and>
                               c + timedelta_minutes dur > appointment_date a) ex)"
      using "1.prems"(1) by (rule is_available_free)
    have next_lo: "datetime_min \<le> c + timedelta_minutes 30"
      using "1.prems"(4) s by simp
    have next_hi: "c + timedelta_minutes 30 \<le> datetime_max"
      using "1.prems"(3) True by simp
    have next_time: "plus_minutes c 30 = Inr (c + timedelta_minutes 30)"
      using "1.prems"(4,5) next_lo next_hi by (rule plus_minutes_in_range)
    have end_lo: "datetime_min \<le> c + timedelta_minutes 30 + timedelta_minutes dur"
      using "1.prems"(6) s by simp
    have end_hi: "c + timedelta_minutes 30 + timedelta_minutes dur \<le> datetime_max"
      using "1.prems"(2) True by simp
    note IH = "1.IH" [OF slot_end True free next_time "1.prems"(1-3) next_lo next_hi end_lo end_hi]
    show ?thesis
      apply (subst slots_loop.simps)
      apply (simp only: slot_end True free next_time IH shift sum.case if_True)
      apply (subst upt_nat_step [OF s x])
      apply (simp add: comp_def next_start del: upt_Suc slots_loop.simps)
      apply (simp add: timedelta_minutes_def)
      done
  qed
qed


lemma models_to_entities_ok:
  "list_all (\<lambda>a. Appointment_post_init a = Inr a) rs \<Longrightarrow> models_to_entities rs = Inr rs"
  by (induction rs) auto

lemma find_by_date_ok:
  assumes "list_all (\<lambda>a. Appointment_post_init a = Inr a) (on_date d (appointment_rows db))"
  shows "find_by_date db d =
     Inr (sort_key appointment_date
            (filter (\<lambda>r. combine d 0 \<le> appointment_date r \<and> appointment_date r \<le> combine d time_max)
               (appointment_rows db)))"
  unfolding find_by_date_def using assms
  by (intro models_to_entities_ok) (auto simp: list_all_iff on_date_def)

lemma candidate_windows_starts:
  "candidate_windows d dur = map (\<lambda>s. (s, s + timedelta_minutes dur)) (candidate_starts d dur)"
  by (simp add: candidate_windows_def candidate_starts_def comp_def)

lemma candidate_starts_bounds:
  assumes "s \<in> set (candidate_starts d dur)"
  shows "day_start d \<le> s \<and> s + timedelta_minutes dur \<le> day_end d"
proof -
  from assms obtain k where k: "k < nat ((600 - dur) div 30 + 1)"
    and s: "s = day_start d + timedelta_minutes (30 * int k)"
    by (auto simp: candidate_starts_def)
  from k have "int k \<le> (600 - dur) div 30" by simp
  then have "30 * int k \<le> 30 * ((600 - dur) div 30)" by simp
  also have "\<dots> \<le> 600 - dur" by simp
  finally have "30 * int k + dur \<le> 600" by simp
  then show ?thesis
    by (simp add: s day_start_def day_end_def combine_def timedelta_minutes_def)
qed

lemma day_span:
  "(day_end d - day_start d - timedelta_minutes dur) div timedelta_minutes 30 = (600 - dur) div 30"
proof -
  have "day_end d - day_start d - timedelta_minutes dur = (600 - dur) * 60000000"
    by (simp add: day_end_def day_start_def combine_def timedelta_minutes_def)
  moreover have "timedelta_minutes 30 = 30 * 60000000"
    by (simp add: timedelta_minutes_def)
  ultimately show ?thesis
    by (simp only: div_mult_mult2)
qed

lemma free_of_the_day:
  "(\<not> list_ex (\<lambda>a. s < appointment_end a \<and> s + timedelta_minutes dur > appointment_date a)
        (filter (\<lambda>apt. veterinarian_id apt = Some vid \<and>
                        status apt \<in> set [SCHEDULED, CONFIRMED, IN_PROGRESS])
           (sort_key appointment_date
              (filter (\<lambda>r. combine d 0 \<le> appointment_date r \<and>
                            appointment_date r \<le> combine d time_max) rows)))) =
   is_free (on_date d rows) vid (s, s + timedelta_minutes dur)"
  unfolding is_free_def list_ex_iff on_date_def
  by (auto simp: blocking_def overlaps_def)

lemma free_on_the_day:
  assumes rows: "list_all (\<lambda>a. duration_minutes a \<le> 480) rows"
    and s: "day_start d \<le> s" "s + timedelta_minutes dur \<le> day_end d"
  shows "is_free (on_date d rows) vid (s, s + timedelta_minutes dur) =
         is_free rows vid (s, s + timedelta_minutes dur)"
proof -
  have on_day: "combine d 0 \<le> appointment_date a \<and> appointment_date a \<le> combine d time_max"
    if "a \<in> set rows" "s < appointment_end a" "s + timedelta_minutes dur > appointment_date a" for a
  proof -
    from that(1) rows have "duration_minutes a \<le> 480" by (simp add: list_all_iff)
    with that(2,3) s show ?thesis
      by (simp add: appointment_end_def timedelta_minutes_def day_start_def day_end_def combine_def
          time_max_def)
  qed
  show ?thesis
    unfolding is_free_def on_date_def
    by (auto simp: overlaps_def dest: on_day)
qed

lemma candidates_chronological:
  "sorted_wrt (\<lambda>v w. fst v < fst w) (candidate_windows d dur)"
proof -
  have "sorted_wrt (\<lambda>j k. day_start d + timedelta_minutes (30 * int j)
                          < day_start d + timedelta_minutes (30 * int k)) [0 ..< n]" for n
    by (rule sorted_wrt_mono_rel [of _ "(<)"]) (simp_all add: timedelta_minutes_def)
  then show ?thesis
    by (simp add: candidate_windows_def sorted_wrt_map)
qed

lemma candidates_stop:
  "day_end d < day_start d + timedelta_minutes (30 * int (length (candidate_windows d dur))) +
           timedelta_minutes dur"
proof -
  have "600 - dur < 30 * ((600 - dur) div 30 + 1)"
    by presburger
  then have "600 - dur < 30 * int (nat ((600 - dur) div 30 + 1))"
    by (cases "0 \<le> (600 - dur) div 30 + 1") auto
  then show ?thesis
    by (simp add: candidate_windows_def day_end_def day_start_def combine_def timedelta_minutes_def)
qed


lemma candidates_bounds:
  "list_all (\<lambda>w. day_start d \<le> fst w \<and> snd w = fst w + timedelta_minutes dur \<and>
                  snd w \<le> day_end d) (candidate_windows d dur)"
  using candidate_starts_bounds [of _ d dur]
  by (simp add: candidate_windows_starts list_all_iff)

lemma slots_of_the_day:
  assumes ex: "list_all (\<lambda>a. end_time a = Inr (appointment_end a)) ex"
    and d: "1 \<le> d" "d \<le> date_max"
    and first_end: "datetime_min \<le> day_start d + timedelta_minutes dur"
      "day_start d + timedelta_minutes dur \<le> datetime_max"
    and last_start: "day_end d + timedelta_minutes 30 - timedelta_minutes dur \<le> datetime_max"
  shows "slots_loop ex (combine d (18 * 3600000000)) dur (combine d (8 * 3600000000)) =
     Inr (map (\<lambda>s. new_slot s (s + timedelta_minutes dur))
       (filter (\<lambda>s. \<not> list_ex (\<lambda>a. s < appointment_end a \<and>
                                      s + timedelta_minutes dur > appointment_date a) ex)
          (candidate_starts d dur)))"
proof -
  have day: "day_end d + timedelta_minutes 30 \<le> datetime_max" "datetime_min \<le> day_start d"
    "day_start d \<le> datetime_max"
    using d by (simp_all add: day_end_def day_start_def datetime_range)
  have "slots_loop ex (day_end d) dur (day_start d) =
     Inr (map (\<lambda>s. new_slot s (s + timedelta_minutes dur))
       (filter (\<lambda>s. \<not> list_ex (\<lambda>a. s < appointment_end a \<and>
                                      s + timedelta_minutes dur > appointment_date a) ex)
          (candidate_starts d dur)))"
    by (simp only: slots_loop_closed [OF ex day(1) last_start day(2,3) first_end] day_span
        candidate_starts_def)
  then show ?thesis
    by (simp only: day_end_def day_start_def)
qed

lemma get_availability_slots_free:
  assumes rows: "list_all (\<lambda>a. Appointment_post_init a = Inr a)
                  (on_date d (appointment_rows db))"
    and d: "1 \<le> d" "d \<le> date_max"
    and first_end: "datetime_min \<le> day_start d + timedelta_minutes dur"
      "day_start d + timedelta_minutes dur \<le> datetime_max"
    and last_start: "day_end d + timedelta_minutes 30 - timedelta_minutes dur \<le> datetime_max"
  shows "get_availability_slots db d vid dur =
           Inr (map (\<lambda>w. new_slot (fst w) (snd w))
                  (filter (is_free (on_date d (appointment_rows db)) vid)
                     (candidate_windows d dur)))"
proof -
  define ex where "ex = filter (\<lambda>apt. veterinarian_id apt = Some vid \<and>
                            status apt \<in> set [SCHEDULED, CONFIRMED, IN_PROGRESS])
               (sort_key appointment_date
                  (filter (\<lambda>r. combine d 0 \<le> appointment_date r \<and>
                                appointment_date r \<le> combine d time_max) (appointment_rows db)))"
  have ends: "list_all (\<lambda>a. end_time a = Inr (appointment_end a)) ex"
    using rows unfolding ex_def list_all_iff on_date_def
    by (auto dest: Appointment_post_init_Inr)
  have free: "(\<lambda>s. \<not> list_ex (\<lambda>a. s < appointment_end a \<and>
                                   s + timedelta_minutes dur > appointment_date a) ex) =
        (\<lambda>s. is_free (on_date d (appointment_rows db)) vid (s, s + timedelta_minutes dur))"
    unfolding ex_def by (rule ext) (rule free_of_the_day)
  have "get_availability_slots db d vid dur =
      slots_loop ex (combine d (18 * 3600000000)) dur (combine d (8 * 3600000000))"
    by (simp only: get_availability_slots_def find_by_date_ok [OF rows] sum.case ex_def)
  also have "\<dots> = Inr (map (\<lambda>s. new_slot s (s + timedelta_minutes dur))
       (filter (\<lambda>s. is_free (on_date d (appointment_rows db)) vid (s, s + timedelta_minutes dur))
          (candidate_starts d dur)))"
    by (simp only: slots_of_the_day [OF ends d first_end last_start] free)
  also have "\<dots> = Inr (map (\<lambda>w. new_slot (fst w) (snd w))
                  (filter (is_free (on_date d (appointment_rows db)) vid)
                     (candidate_windows d dur)))"
    by (simp add: candidate_windows_starts filter_map comp_def)
  finally show ?thesis .
qed

lemma free_candidates_all_rows:
  assumes "list_all (\<lambda>a. duration_minutes a \<le> 480) rows"
  shows "filter (is_free (on_date d rows) vid) (candidate_windows d dur) =
         filter (is_free rows vid) (candidate_windows d dur)"
proof (rule filter_cong [OF refl])
  fix w
  assume "w \<in> set (candidate_windows d dur)"
  then obtain s where s: "s \<in> set (candidate_starts d dur)"
    and w: "w = (s, s + timedelta_minutes dur)"
    by (auto simp: candidate_windows_starts)
  from s have "day_start d \<le> s" "s + timedelta_minutes dur \<le> day_end d"
    by (simp_all add: candidate_starts_bounds)
  with assms show "is_free (on_date d rows) vid w = is_free rows vid w"
    unfolding w by (rule free_on_the_day)
qed

lemma example_clinic_rows:
  "list_all (\<lambda>a. Appointment_post_init a = Inr a) (on_date 741084 (appointment_rows example_clinic))"
  "list_all (\<lambda>a. duration_minutes a \<le> 480) (appointment_rows example_clinic)"
  by (simp_all add: clinic_eval Appointment_post_init_def on_date_def)

lemma example_day:
  "(1::int) \<le> 741084" "741084 \<le> date_max"
  "datetime_min \<le> day_start 741084 + timedelta_minutes 30"
  "day_start 741084 + timedelta_minutes 30 \<le> datetime_max"
  "day_end 741084 + timedelta_minutes 30 - timedelta_minutes 30 \<le> datetime_max"
  "datetime_min \<le> day_start 741084 + timedelta_minutes 60"
  "day_start 741084 + timedelta_minutes 60 \<le> datetime_max"
  "day_end 741084 + timedelta_minutes 30 - timedelta_minutes 60 \<le> datetime_max"
  by (simp_all add: day_start_def day_end_def datetime_range)

lemma windows_in_range:
  assumes "1 \<le> d" "d \<le> date_max" "0 \<le> dur" "dur < 960"
  shows "datetime_min \<le> day_start d + timedelta_minutes dur"
    and "day_start d + timedelta_minutes dur \<le> datetime_max"
    and "day_end d + timedelta_minutes 30 - timedelta_minutes dur \<le> datetime_max"
  using assms by (simp_all add: day_start_def day_end_def datetime_range)

text \<open>
  On 9999-12-31 the end of a window of 960 minutes that starts at 08:00 is no datetime:
  the call raises before it has looked at any window.
\<close>

lemma last_day_overflow:
  "get_availability_slots (example_clinic\<lparr>appointment_rows := []\<rparr>) date_max vid 960 =
     Inl (OverflowError ''date value out of range'')"
  by (subst get_availability_slots_def, simp add: find_by_date_def, subst slots_loop.simps)
    (simp add: plus_minutes_def datetime_range)

lemma upt_19: "[0 ..< 19] = [0, 1, 2, 3, 4, 5, 6, 7, 8, 9, 10, 11, 12, 13, 14, 15, 16, 17, 18]"
  by code_simp

subsection \<open>The guards of the transitions\<close>

lemma confirm_requires_scheduled:
  "find_by_id db i = Inr (Some a) \<Longrightarrow> status a \<noteq> SCHEDULED \<Longrightarrow>
   confirm_appointment now db i =
     (Inl (ValueError ''Only scheduled appointments can be confirmed''), db)"
  by (simp add: confirm_appointment_def)

lemma start_requires_confirmed:
  "find_by_id db i = Inr (Some a) \<Longrightarrow> status a \<noteq> CONFIRMED \<Longrightarrow>
   start_appointment now db i =
     (Inl (ValueError ''Only confirmed appointments can be started''), db)"
  by (simp add: start_appointment_def)

lemma complete_requires_in_progress:
  "find_by_id db i = Inr (Some a) \<Longrightarrow> status a \<noteq> IN_PROGRESS \<Longrightarrow>
   complete_appointment now db i n =
     (Inl (ValueError ''Only appointments in progress can be completed''), db)"
  by (simp add: complete_appointment_def)

lemma cancel_requires_modifiable:
  "find_by_id db i = Inr (Some a) \<Longrightarrow> status a \<notin> set [SCHEDULED, CONFIRMED, IN_PROGRESS] \<Longrightarrow>
   cancel_appointment now db i r =
     (Inl (ValueError ''This appointment cannot be cancelled''), db)"
  by (simp add: cancel_appointment_def can_be_modified_def)

lemma scheduled_cannot_complete:
  "complete_appointment now requested_clinic 1 None =
     (Inl (ValueError ''Only appointments in progress can be completed''), requested_clinic)"
  by (simp add: clinic_eval requested_def requested_clinic_def confirm_appointment_def
      start_appointment_def complete_appointment_def find_by_id_def Appointment_post_init_def
      mark_as_completed_def truthy_def update_def save_def)

lemma confirm_start_complete:
  "map status
     (appointment_rows
        (snd (complete_appointment 3
               (snd (start_appointment 2 (snd (confirm_appointment 1 requested_clinic 1)) 1))
               1 None))) = [COMPLETED]"
  by (simp add: clinic_eval requested_def requested_clinic_def confirm_appointment_def
      start_appointment_def complete_appointment_def find_by_id_def Appointment_post_init_def
      mark_as_completed_def truthy_def update_def save_def)

text \<open>
  Claim C1 asks that scheduling over a blocking appointment of the same practitioner
  fails before anything is persisted. \<open>schedule_appointment\<close> makes no availability
  check: with a confirmed appointment of veterinarian 2 from 10:00 to 10:30, which the
  interval from 10:15 to 10:45 overlaps, the request for 10:15 to 10:45 returns the new
  appointment, and the table then holds both.
\<close>

theorem schedule_ignores_conflict:
  "veterinarian_id booked = Some 2 \<and> blocking booked \<and>
   overlaps (clock 741084 10 15) (clock 741084 10 45)
     (appointment_date booked) (appointment_end booked) \<and>
   fst (schedule_appointment (\<lambda>s fmt. None) (clock 741084 8 0) example_clinic
          conflicting_request) = Inr double_booked \<and>
   map (\<lambda>a. (veterinarian_id a, appointment_date a, appointment_end a, status a))
     (appointment_rows
        (snd (schedule_appointment (\<lambda>s fmt. None) (clock 741084 8 0) example_clinic
                conflicting_request))) =
     [(Some 2, clock 741084 10 0, clock 741084 10 30, CONFIRMED),
      (Some 2, clock 741084 10 15, clock 741084 10 45, SCHEDULED)]"
  by (simp add: clinic_eval conflicting_request_def double_booked_def blocking_def overlaps_def
      schedule_appointment_def validate_appointment_data_def falsy_int_def falsy_date_def
      falsy_string_def AppointmentType_of_value_def parse_appointment_datetime_def
      strip_or_none_def Appointment_post_init_def save_def next_id_def Let_def)
text \<open>
  Claim C5 asks that \<open>check_availability\<close> returns false exactly when a blocking
  appointment of the practitioner overlaps the interval, and true otherwise.
  \<open>check_availability\<close> returns neither: it raises TypeError while it builds its
  query, for every practitioner, every interval and every state of the table. With one
  confirmed appointment of veterinarian 2 from 10:00 to 10:30, the checks of 10:15 to
  10:45, of 10:30 to 11:00 and of 09:30 to 10:00 all raise, where the claim has false,
  true and true.
\<close>

theorem check_availability_raises:
  "check_availability db start end' vid =
     Inl (TypeError ''Object associated with .type attribute is not a TypeEngine class or object'') \<and>
   check_availability example_clinic (clock 741084 10 15) (clock 741084 10 45) 2 =
     Inl (TypeError ''Object associated with .type attribute is not a TypeEngine class or object'') \<and>
   check_availability example_clinic (clock 741084 10 30) (clock 741084 11 0) 2 =
     Inl (TypeError ''Object associated with .type attribute is not a TypeEngine class or object'') \<and>
   check_availability example_clinic (clock 741084 9 30) (clock 741084 10 0) 2 =
     Inl (TypeError ''Object associated with .type attribute is not a TypeEngine class or object'')"
  by (simp add: check_availability_def)
text \<open>
  Claim C6, as amended. \<open>get_availability_slots\<close> returns, for every practitioner,
  every date and every requested duration, exactly the candidate windows that overlap
  (half-open) no appointment which starts on that date, belongs to the practitioner and
  is scheduled, confirmed or in progress, in chronological order; an appointment that
  starts on an earlier date and runs into the day is not looked at. When no appointment
  lasts longer than 480 minutes, no appointment of another date can reach a window, and
  the windows returned are the candidates that overlap no such appointment of the
  practitioner at all. The candidate windows start at 08:00, 30 minutes apart, each has
  the requested duration and ends by 18:00, and the window after the last one would end
  after 18:00; so no returned window ends after 18:00. When no appointment blocks the
  practitioner and the duration is 30 minutes, 20 windows are returned. This holds when
  the stored appointments that start on the date are ones the constructor of
  \<open>Appointment\<close> accepts, the date is one of Python's calendar, and the end of the
  first window and the last start the loop reaches are datetimes, which is so for every
  duration from 0 to 959 minutes (lemma \<open>windows_in_range\<close>); outside the range of
  the datetimes the call raises OverflowError (lemma \<open>last_day_overflow\<close>).
\<close>

theorem availability_slots:
  assumes "list_all (\<lambda>a. Appointment_post_init a = Inr a) (on_date d (appointment_rows db))"
    and "1 \<le> d" and "d \<le> date_max"
    and "datetime_min \<le> day_start d + timedelta_minutes dur"
    and "day_start d + timedelta_minutes dur \<le> datetime_max"
    and "day_end d + timedelta_minutes 30 - timedelta_minutes dur \<le> datetime_max"
  shows "get_availability_slots db d vid dur =
           Inr (map (\<lambda>w. new_slot (fst w) (snd w))
                  (filter (is_free (on_date d (appointment_rows db)) vid)
                     (candidate_windows d dur))) \<and>
         (list_all (\<lambda>a. duration_minutes a \<le> 480) (appointment_rows db) \<longrightarrow>
            get_availability_slots db d vid dur =
              Inr (map (\<lambda>w. new_slot (fst w) (snd w))
                     (filter (is_free (appointment_rows db) vid) (candidate_windows d dur)))) \<and>
         list_all (\<lambda>w. day_start d \<le> fst w \<and> snd w = fst w + timedelta_minutes dur \<and>
                        snd w \<le> day_end d) (candidate_windows d dur) \<and>
         sorted_wrt (\<lambda>v w. fst v < fst w) (candidate_windows d dur) \<and>
         day_end d < day_start d + timedelta_minutes (30 * int (length (candidate_windows d dur))) +
           timedelta_minutes dur \<and>
         list_all (\<lambda>s. slot_end_time s \<le> day_end d) (projr (get_availability_slots db d vid dur)) \<and>
         sorted_wrt (\<lambda>s t. slot_start_time s < slot_start_time t)
           (projr (get_availability_slots db d vid dur)) \<and>
         (list_all (\<lambda>a. \<not> (veterinarian_id a = Some vid \<and> blocking a)) (appointment_rows db) \<and>
          dur = 30 \<longrightarrow>
            length (projr (get_availability_slots db d vid dur)) = 20)"
proof (intro conjI impI)
  note eq = get_availability_slots_free [OF assms, of vid]
  show "get_availability_slots db d vid dur =
           Inr (map (\<lambda>w. new_slot (fst w) (snd w))
                  (filter (is_free (on_date d (appointment_rows db)) vid)
                     (candidate_windows d dur)))"
    by (rule eq)
  show "list_all (\<lambda>w. day_start d \<le> fst w \<and> snd w = fst w + timedelta_minutes dur \<and>
                        snd w \<le> day_end d) (candidate_windows d dur)"
    by (rule candidates_bounds)
  show "sorted_wrt (\<lambda>v w. fst v < fst w) (candidate_windows d dur)"
    by (rule candidates_chronological)
  show "day_end d < day_start d + timedelta_minutes (30 * int (length (candidate_windows d dur))) +
           timedelta_minutes dur"
    by (rule candidates_stop)
  show "list_all (\<lambda>s. slot_end_time s \<le> day_end d) (projr (get_availability_slots db d vid dur))"
    using candidates_bounds [of d dur]
    by (auto simp: eq list_all_iff new_slot_def)
  show "sorted_wrt (\<lambda>s t. slot_start_time s < slot_start_time t)
           (projr (get_availability_slots db d vid dur))"
    using sorted_wrt_filter [OF candidates_chronological,
        of "is_free (on_date d (appointment_rows db)) vid" d dur]
    by (simp add: eq sorted_wrt_map new_slot_def)
next
  assume "list_all (\<lambda>a. duration_minutes a \<le> 480) (appointment_rows db)"
  then show "get_availability_slots db d vid dur =
              Inr (map (\<lambda>w. new_slot (fst w) (snd w))
                     (filter (is_free (appointment_rows db) vid) (candidate_windows d dur)))"
    by (simp only: get_availability_slots_free [OF assms] free_candidates_all_rows)
next
  assume "list_all (\<lambda>a. \<not> (veterinarian_id a = Some vid \<and> blocking a)) (appointment_rows db) \<and>
          dur = 30"
  then have free: "is_free (on_date d (appointment_rows db)) vid w" and dur: "dur = 30" for w
    by (auto simp: is_free_def on_date_def list_all_iff)
  have "length (projr (get_availability_slots db d vid dur)) = length (candidate_windows d dur)"
    by (simp add: get_availability_slots_free [OF assms] free)
  then show "length (projr (get_availability_slots db d vid dur)) = 20"
    by (simp add: dur candidate_windows_def)
qed

theorem availability_slots_witness:
  "list_all (\<lambda>a. Appointment_post_init a = Inr a)
     (on_date 741084 (appointment_rows example_clinic)) \<and>
   (1::int) \<le> 741084 \<and> 741084 \<le> date_max \<and>
   datetime_min \<le> day_start 741084 + timedelta_minutes 60 \<and>
   day_start 741084 + timedelta_minutes 60 \<le> datetime_max \<and>
   day_end 741084 + timedelta_minutes 30 - timedelta_minutes 60 \<le> datetime_max \<and>
   list_all (\<lambda>a. duration_minutes a \<le> 480) (appointment_rows example_clinic) \<and>
   list_all (\<lambda>a. \<not> (veterinarian_id a = Some 3 \<and> blocking a)) (appointment_rows example_clinic) \<and>
   length (projr (get_availability_slots example_clinic 741084 3 30)) = 20 \<and>
   map slot_start_time (projr (get_availability_slots example_clinic 741084 2 60)) =
     [clock 741084 8 0, clock 741084 8 30, clock 741084 9 0, clock 741084 10 30,
      clock 741084 11 0, clock 741084 11 30, clock 741084 12 0, clock 741084 12 30,
      clock 741084 13 0, clock 741084 13 30, clock 741084 14 0, clock 741084 14 30,
      clock 741084 15 0, clock 741084 15 30, clock 741084 16 0, clock 741084 16 30,
      clock 741084 17 0]"
proof -
  have other: "list_all (\<lambda>a. \<not> (veterinarian_id a = Some 3 \<and> blocking a))
      (appointment_rows example_clinic)"
    by (simp add: example_clinic_def booked_def)
  have "length (projr (get_availability_slots example_clinic 741084 3 30)) = 20"
    using availability_slots [OF example_clinic_rows(1) example_day(1-5), of 3] other by blast
  moreover
  have "get_availability_slots example_clinic 741084 2 60 =
     Inr (map (\<lambda>w. new_slot (fst w) (snd w))
            (filter (is_free (appointment_rows example_clinic) 2) (candidate_windows 741084 60)))"
    using availability_slots [OF example_clinic_rows(1) example_day(1,2,6-8), of 2]
      example_clinic_rows(2)
    by blast
  then have "map slot_start_time (projr (get_availability_slots example_clinic 741084 2 60)) =
     map fst (filter (is_free (appointment_rows example_clinic) 2) (candidate_windows 741084 60))"
    by (simp add: comp_def new_slot_def)
  then have "map slot_start_time (projr (get_availability_slots example_clinic 741084 2 60)) =
     [clock 741084 8 0, clock 741084 8 30, clock 741084 9 0, clock 741084 10 30,
      clock 741084 11 0, clock 741084 11 30, clock 741084 12 0, clock 741084 12 30,
      clock 741084 13 0, clock 741084 13 30, clock 741084 14 0, clock 741084 14 30,
      clock 741084 15 0, clock 741084 15 30, clock 741084 16 0, clock 741084 16 30,
      clock 741084 17 0]"
    by (simp add: candidate_windows_def is_free_def blocking_def overlaps_def day_start_def
        example_clinic_def booked_def clock_def combine_def timedelta_minutes_def
        appointment_end_def upt_19)
  ultimately show ?thesis
    using example_clinic_rows other example_day by simp
qed

theorem overnight_appointment_counterexample:
  "veterinarian_id overnight = Some 2 \<and> blocking overnight \<and>
   overlaps (clock 741084 8 0) (clock 741084 8 30)
     (appointment_date overnight) (appointment_end overnight) \<and>
   map (\<lambda>s. (slot_start_time s, slot_end_time s))
     (take 1 (projr (get_availability_slots overnight_clinic 741084 2 30))) =
     [(clock 741084 8 0, clock 741084 8 30)] \<and>
   get_availability_slots overnight_clinic 741084 2 30 =
     Inr (map (\<lambda>w. new_slot (fst w) (snd w)) (candidate_windows 741084 30))"
proof -
  have none: "on_date 741084 (appointment_rows overnight_clinic) = []"
    by (simp add: overnight_clinic_def overnight_def on_date_def clinic_eval)
  then have rows: "list_all (\<lambda>a. Appointment_post_init a = Inr a)
      (on_date 741084 (appointment_rows overnight_clinic))"
    by simp
  have all: "get_availability_slots overnight_clinic 741084 2 30 =
     Inr (map (\<lambda>w. new_slot (fst w) (snd w)) (candidate_windows 741084 30))"
    by (simp add: get_availability_slots_free [OF rows example_day(1-5)] none is_free_def)
  have first: "take (Suc 0) (candidate_windows 741084 30) =
      [(clock 741084 8 0, clock 741084 8 30)]"
    by (simp add: candidate_windows_def day_start_def clock_def combine_def
        timedelta_minutes_def upt_conv_Cons)
  have "map (\<lambda>s. (slot_start_time s, slot_end_time s))
     (take 1 (projr (get_availability_slots overnight_clinic 741084 2 30))) =
     [(clock 741084 8 0, clock 741084 8 30)]"
    by (simp add: all take_map first new_slot_def)
  moreover have "veterinarian_id overnight = Some 2 \<and> blocking overnight \<and>
   overlaps (clock 741084 8 0) (clock 741084 8 30)
     (appointment_date overnight) (appointment_end overnight)"
    by (simp add: overnight_def clinic_eval blocking_def overlaps_def)
  ultimately show ?thesis
    using all by simp
qed
text \<open>
  Claim C7 asks that a modification of the fields, like a cancellation, is refused unless
  the status is scheduled, confirmed or in progress. \<open>confirm_appointment\<close>,
  \<open>start_appointment\<close>, \<open>complete_appointment\<close> and \<open>cancel_appointment\<close> check
  their source status (the lemmas above), but \<open>update_appointment\<close> never reads
  \<open>can_be_modified\<close>: on a completed appointment it returns normally and has rewritten
  the notes.
\<close>

theorem update_ignores_status:
  "can_be_modified finished = False \<and>
   fst (update_appointment (clock 741084 12 0) finished_clinic 1 only_notes) =
     Inr (finished\<lparr>appointment_notes := Some ''rewritten'',
                   updated_at := Some (clock 741084 12 0)\<rparr>) \<and>
   map (\<lambda>a. (status a, appointment_notes a))
     (appointment_rows (snd (update_appointment (clock 741084 12 0) finished_clinic 1 only_notes))) =
     [(COMPLETED, Some ''rewritten'')]"
  by (simp add: clinic_eval finished_def finished_clinic_def only_notes_def
      can_be_modified_def update_appointment_def find_by_id_def Appointment_post_init_def
      or_else_def update_def save_def)


end
